theory Spec2Isabelle
  imports Main "HOL-Library.Word" "HOL-Library.Signed_Division"
begin

unbundle bit_operations_syntax

section \<open>Data model of jvm.c\<close>

text \<open>
  The interpreter of \<^verbatim>\<open>jvm.c\<close> is the single C function \<^verbatim>\<open>execute\<close>: a
  \<^verbatim>\<open>while (pc < code_length)\<close> loop around one \<^verbatim>\<open>switch\<close> on the opcode byte, which
  calls itself for \<^verbatim>\<open>invokestatic\<close>.

  Conventions of the embedding.
  \<^item> \<^verbatim>\<open>u1\<close> is an 8-bit word, \<^verbatim>\<open>int32_t\<close> a 32-bit word (read with \<open>sint\<close> where C
    compares or tests the sign), \<^verbatim>\<open>size_t\<close> a 64-bit word.
  \<^item> Arithmetic is that of the compiled program on a two's complement machine:
    \<^verbatim>\<open>+\<close>, \<^verbatim>\<open>-\<close>, \<^verbatim>\<open>*\<close> on \<^verbatim>\<open>int32_t\<close> wrap around, a conversion to a narrower
    signed type keeps the low bits, and a shift takes the low five bits of its count,
    as the shift instructions do.
  \<^item> The fault \<open>Undefined\<close> is the end of a run that C does not define and that the
    machine does not survive: an access outside an array (operand stack, locals, code,
    constant pool, heap registry, backing array), the quotient \<^verbatim>\<open>INT_MIN / -1\<close>, a
    write through a null pointer. A failed \<^verbatim>\<open>assert\<close> is the fault \<open>AssertionFailed\<close>.
  \<^item> \<^verbatim>\<open>calloc\<close> is taken to succeed for every size that an \<^verbatim>\<open>int32_t\<close> count gives
    without overflow.
  \<^item> \<^verbatim>\<open>stack_count\<close> is an \<^verbatim>\<open>int32_t\<close>; it is modelled as an \<open>int\<close>, every change of
    it sits next to an access of the operand stack at that position.
  \<^item> The loop and the recursion are bounded by fuel: \<open>None\<close> means that the fuel ran out.
\<close>

type_synonym u1 = "8 word"
type_synonym i32 = "32 word"
type_synonym size_t = "64 word"

datatype fault = AssertionFailed | Undefined

text \<open>
  \<^verbatim>\<open>optional_value_t\<close>: the field \<^verbatim>\<open>value\<close> is named \<open>ret_value\<close> here.
\<close>

record optional_value_t =
  has_value :: bool
  ret_value :: i32

text \<open>
  Modelled from the spec: \<^verbatim>\<open>read_class.h\<close> is not part of the sources. A method carries
  its \<^verbatim>\<open>code\<close> attribute with the two capacity hints and the byte array (the array
  \<^verbatim>\<open>code.code\<close> is the field \<open>code_bytes\<close>, and \<^verbatim>\<open>code.code_length\<close> is its length), and
  the parameter count that \<^verbatim>\<open>get_number_of_parameters\<close> parses from the descriptor.
\<close>

record code_t =
  max_stack :: nat
  max_locals :: nat
  code_bytes :: "u1 list"

record method_t =
  code :: code_t
  number_of_parameters :: "16 word"

definition code_length :: "code_t \<Rightarrow> nat" where
  "code_length c = length (code_bytes c)"

definition get_number_of_parameters :: "method_t \<Rightarrow> 16 word" where
  "get_number_of_parameters meth = number_of_parameters meth"

text \<open>
  Modelled from the spec: the constant pool is a 1-based array of entries, of which the
  interpreter reads integer constants; \<^verbatim>\<open>find_method_from_index\<close> resolves a method
  reference to a method of the same class. Its prototype is in \<^verbatim>\<open>read_class.h\<close>, so
  both the resolution and the type of its \<^verbatim>\<open>index\<close> parameter are parameters of the
  class here. The caller's argument is an \<^verbatim>\<open>int16_t\<close>; \<open>as_parameter\<close> is the value the
  function receives: the same number for a signed parameter type that holds every
  \<^verbatim>\<open>int16_t\<close>, the 16 bits read as unsigned for \<^verbatim>\<open>uint16_t\<close>. \<open>method_at_index\<close>
  maps the received value to the method, and \<open>None\<close> stands for an index that resolves
  to no method.
\<close>

datatype cp_info = CONSTANT_Integer i32 | CONSTANT_other

datatype parameter_type = SignedIndex | UnsignedIndex

definition as_parameter :: "parameter_type \<Rightarrow> 16 word \<Rightarrow> int" where
  "as_parameter ty index = (case ty of SignedIndex \<Rightarrow> sint index | UnsignedIndex \<Rightarrow> uint index)"

record class_file_t =
  constant_pool :: "cp_info list"
  index_parameter :: parameter_type
  method_at_index :: "int \<Rightarrow> method_t option"

definition find_method_from_index :: "16 word \<Rightarrow> class_file_t \<Rightarrow> method_t option" where
  "find_method_from_index index cls =
     method_at_index cls (as_parameter (index_parameter cls) index)"

text \<open>
  Modelled from the spec: \<^verbatim>\<open>heap.h\<close> is not part of the sources. The heap is an
  append-only registry of arrays; \<^verbatim>\<open>heap_add\<close> registers an array and returns the next
  reference, counted from 0; \<^verbatim>\<open>heap_get\<close> returns the array stored under a reference.
  Arrays are shared through their reference, so a write to a backing array is a write
  to the registry entry.
\<close>

type_synonym heap_t = "i32 list list"

definition heap_add :: "heap_t \<Rightarrow> i32 list \<Rightarrow> heap_t \<times> i32" where
  "heap_add h arr = (h @ [arr], word_of_nat (length h))"

definition heap_has :: "heap_t \<Rightarrow> i32 \<Rightarrow> bool" where
  "heap_has h ref \<longleftrightarrow> 0 \<le> sint ref \<and> nat (sint ref) < length h"

definition heap_get :: "heap_t \<Rightarrow> i32 \<Rightarrow> i32 list" where
  "heap_get h ref = h ! nat (sint ref)"

text \<open>
  The state of one activation of \<^verbatim>\<open>execute\<close>: its three local variables, the
  \<^verbatim>\<open>locals\<close> array it was given, and the two things shared by all activations, the heap
  and the lines printed so far.
\<close>

record frame =
  pc :: size_t
  operand_stack :: "i32 list"
  stack_count :: int
  locals :: "i32 list"
  heap :: heap_t
  stdout :: "i32 list"

definition in_stack :: "frame \<Rightarrow> int \<Rightarrow> bool" where
  "in_stack s i \<longleftrightarrow> 0 \<le> i \<and> i < int (length (operand_stack s))"

definition stk :: "frame \<Rightarrow> int \<Rightarrow> i32" where
  "stk s i = operand_stack s ! nat i"

definition stk_set :: "frame \<Rightarrow> int \<Rightarrow> i32 \<Rightarrow> i32 list" where
  "stk_set s i v = (operand_stack s)[nat i := v]"

definition in_code :: "method_t \<Rightarrow> size_t \<Rightarrow> bool" where
  "in_code method i \<longleftrightarrow> unat i < code_length (code method)"

definition code_at :: "method_t \<Rightarrow> size_t \<Rightarrow> u1" where
  "code_at method i = code_bytes (code method) ! unat i"

section \<open>Opcodes\<close>

text \<open>
  Modelled from the spec: the enumeration of \<^verbatim>\<open>jvm.h\<close> is not part of the sources; the
  opcodes have the canonical numbering of the class-file format (\<open>iconst_m1\<close> is 2, so
  that the pushed literal is the opcode minus 3).
\<close>

abbreviation i_nop :: u1 where "i_nop \<equiv> 0x00"
abbreviation i_iconst_m1 :: u1 where "i_iconst_m1 \<equiv> 0x02"
abbreviation i_iconst_0 :: u1 where "i_iconst_0 \<equiv> 0x03"
abbreviation i_iconst_1 :: u1 where "i_iconst_1 \<equiv> 0x04"
abbreviation i_iconst_2 :: u1 where "i_iconst_2 \<equiv> 0x05"
abbreviation i_iconst_3 :: u1 where "i_iconst_3 \<equiv> 0x06"
abbreviation i_iconst_4 :: u1 where "i_iconst_4 \<equiv> 0x07"
abbreviation i_iconst_5 :: u1 where "i_iconst_5 \<equiv> 0x08"
abbreviation i_bipush :: u1 where "i_bipush \<equiv> 0x10"
abbreviation i_sipush :: u1 where "i_sipush \<equiv> 0x11"
abbreviation i_ldc :: u1 where "i_ldc \<equiv> 0x12"
abbreviation i_iload :: u1 where "i_iload \<equiv> 0x15"
abbreviation i_aload :: u1 where "i_aload \<equiv> 0x19"
abbreviation i_iload_0 :: u1 where "i_iload_0 \<equiv> 0x1a"
abbreviation i_iload_1 :: u1 where "i_iload_1 \<equiv> 0x1b"
abbreviation i_iload_2 :: u1 where "i_iload_2 \<equiv> 0x1c"
abbreviation i_iload_3 :: u1 where "i_iload_3 \<equiv> 0x1d"
abbreviation i_aload_0 :: u1 where "i_aload_0 \<equiv> 0x2a"
abbreviation i_aload_1 :: u1 where "i_aload_1 \<equiv> 0x2b"
abbreviation i_aload_2 :: u1 where "i_aload_2 \<equiv> 0x2c"
abbreviation i_aload_3 :: u1 where "i_aload_3 \<equiv> 0x2d"
abbreviation i_iaload :: u1 where "i_iaload \<equiv> 0x2e"
abbreviation i_istore :: u1 where "i_istore \<equiv> 0x36"
abbreviation i_astore :: u1 where "i_astore \<equiv> 0x3a"
abbreviation i_istore_0 :: u1 where "i_istore_0 \<equiv> 0x3b"
abbreviation i_istore_1 :: u1 where "i_istore_1 \<equiv> 0x3c"
abbreviation i_istore_2 :: u1 where "i_istore_2 \<equiv> 0x3d"
abbreviation i_istore_3 :: u1 where "i_istore_3 \<equiv> 0x3e"
abbreviation i_astore_0 :: u1 where "i_astore_0 \<equiv> 0x4b"
abbreviation i_astore_1 :: u1 where "i_astore_1 \<equiv> 0x4c"
abbreviation i_astore_2 :: u1 where "i_astore_2 \<equiv> 0x4d"
abbreviation i_astore_3 :: u1 where "i_astore_3 \<equiv> 0x4e"
abbreviation i_iastore :: u1 where "i_iastore \<equiv> 0x4f"
abbreviation i_dup :: u1 where "i_dup \<equiv> 0x59"
abbreviation i_iadd :: u1 where "i_iadd \<equiv> 0x60"
abbreviation i_isub :: u1 where "i_isub \<equiv> 0x64"
abbreviation i_imul :: u1 where "i_imul \<equiv> 0x68"
abbreviation i_idiv :: u1 where "i_idiv \<equiv> 0x6c"
abbreviation i_irem :: u1 where "i_irem \<equiv> 0x70"
abbreviation i_ineg :: u1 where "i_ineg \<equiv> 0x74"
abbreviation i_ishl :: u1 where "i_ishl \<equiv> 0x78"
abbreviation i_ishr :: u1 where "i_ishr \<equiv> 0x7a"
abbreviation i_iushr :: u1 where "i_iushr \<equiv> 0x7c"
abbreviation i_iand :: u1 where "i_iand \<equiv> 0x7e"
abbreviation i_ior :: u1 where "i_ior \<equiv> 0x80"
abbreviation i_ixor :: u1 where "i_ixor \<equiv> 0x82"
abbreviation i_iinc :: u1 where "i_iinc \<equiv> 0x84"
abbreviation i_ifeq :: u1 where "i_ifeq \<equiv> 0x99"
abbreviation i_ifne :: u1 where "i_ifne \<equiv> 0x9a"
abbreviation i_iflt :: u1 where "i_iflt \<equiv> 0x9b"
abbreviation i_ifge :: u1 where "i_ifge \<equiv> 0x9c"
abbreviation i_ifgt :: u1 where "i_ifgt \<equiv> 0x9d"
abbreviation i_ifle :: u1 where "i_ifle \<equiv> 0x9e"
abbreviation i_if_icmpeq :: u1 where "i_if_icmpeq \<equiv> 0x9f"
abbreviation i_if_icmpne :: u1 where "i_if_icmpne \<equiv> 0xa0"
abbreviation i_if_icmplt :: u1 where "i_if_icmplt \<equiv> 0xa1"
abbreviation i_if_icmpge :: u1 where "i_if_icmpge \<equiv> 0xa2"
abbreviation i_if_icmpgt :: u1 where "i_if_icmpgt \<equiv> 0xa3"
abbreviation i_if_icmple :: u1 where "i_if_icmple \<equiv> 0xa4"
abbreviation i_goto :: u1 where "i_goto \<equiv> 0xa7"
abbreviation i_ireturn :: u1 where "i_ireturn \<equiv> 0xac"
abbreviation i_areturn :: u1 where "i_areturn \<equiv> 0xb0"
abbreviation i_return :: u1 where "i_return \<equiv> 0xb1"
abbreviation i_getstatic :: u1 where "i_getstatic \<equiv> 0xb2"
abbreviation i_invokevirtual :: u1 where "i_invokevirtual \<equiv> 0xb6"
abbreviation i_invokestatic :: u1 where "i_invokestatic \<equiv> 0xb8"
abbreviation i_newarray :: u1 where "i_newarray \<equiv> 0xbc"
abbreviation i_arraylength :: u1 where "i_arraylength \<equiv> 0xbe"

section \<open>The instructions\<close>

text \<open>
  What one pass through the \<^verbatim>\<open>switch\<close> does: the loop goes on with a new frame, the
  activation returns, or (for \<^verbatim>\<open>invokestatic\<close>, once the arguments are popped) a callee
  is to be run on its fresh locals.
\<close>

datatype step_result =
  Continue frame
  | Return optional_value_t
  | Call method_t "i32 list" frame

text \<open>
  \<^verbatim>\<open>operand_stack[stack_count] = v; stack_count += 1; pc += n;\<close>
\<close>

definition push_value :: "frame \<Rightarrow> i32 \<Rightarrow> size_t \<Rightarrow> fault + step_result" where
  "push_value s v n =
     (if in_stack s (stack_count s)
      then Inr (Continue (s\<lparr>operand_stack := stk_set s (stack_count s) v,
                             stack_count := stack_count s + 1,
                             pc := pc s + n\<rparr>))
      else Inl Undefined)"

text \<open>
  \<^verbatim>\<open>operand_stack[stack_count - 2] = f(operand_stack[stack_count - 2],
  operand_stack[stack_count - 1]); stack_count -= 1; pc += 1;\<close>
\<close>

definition binop :: "frame \<Rightarrow> (i32 \<Rightarrow> i32 \<Rightarrow> i32) \<Rightarrow> fault + step_result" where
  "binop s f =
     (if in_stack s (stack_count s - 1) \<and> in_stack s (stack_count s - 2)
      then Inr (Continue (s\<lparr>operand_stack :=
                               stk_set s (stack_count s - 2)
                                 (f (stk s (stack_count s - 2)) (stk s (stack_count s - 1))),
                             stack_count := stack_count s - 1,
                             pc := pc s + 1\<rparr>))
      else Inl Undefined)"

text \<open>
  \<^verbatim>\<open>idiv\<close>, \<^verbatim>\<open>irem\<close> and the three shifts first \<^verbatim>\<open>assert\<close> a property of the top of
  the stack, then combine the two topmost values; \<open>defined\<close> says where the operation
  has a result (the division traps on \<^verbatim>\<open>INT_MIN / -1\<close>).
\<close>

definition asserted_binop ::
  "frame \<Rightarrow> (i32 \<Rightarrow> bool) \<Rightarrow> (i32 \<Rightarrow> i32 \<Rightarrow> bool) \<Rightarrow> (i32 \<Rightarrow> i32 \<Rightarrow> i32) \<Rightarrow> fault + step_result" where
  "asserted_binop s asserted defined f =
     (if \<not> in_stack s (stack_count s - 1) then Inl Undefined
      else if \<not> asserted (stk s (stack_count s - 1)) then Inl AssertionFailed
      else if \<not> in_stack s (stack_count s - 2) then Inl Undefined
      else if \<not> defined (stk s (stack_count s - 2)) (stk s (stack_count s - 1)) then Inl Undefined
      else binop s f)"

text \<open>
  \<^verbatim>\<open>(int16_t)((code[pc + 1] << 8) | code[pc + 2])\<close>
\<close>

definition int16_operand :: "method_t \<Rightarrow> size_t \<Rightarrow> 16 word" where
  "int16_operand method p =
     push_bit 8 (ucast (code_at method (p + 1))) OR ucast (code_at method (p + 2))"

text \<open>
  The body shared by the twelve conditional branches, \<open>c\<close> being the value of the
  condition and \<open>n\<close> the number of values it compares:
  \<^verbatim>\<open>if (c) { pc += (int16_t)(...); } else { pc += 3; } stack_count -= n;\<close>
  The displacement is converted to \<^verbatim>\<open>size_t\<close> for the addition, which wraps.
\<close>

definition branch :: "bool \<Rightarrow> int \<Rightarrow> method_t \<Rightarrow> frame \<Rightarrow> fault + step_result" where
  "branch c n method s =
     (if c
      then (if in_code method (pc s + 1) \<and> in_code method (pc s + 2)
            then Inr (Continue (s\<lparr>pc := pc s + scast (int16_operand method (pc s)),
                                   stack_count := stack_count s - n\<rparr>))
            else Inl Undefined)
      else Inr (Continue (s\<lparr>pc := pc s + 3, stack_count := stack_count s - n\<rparr>)))"

definition if_unary :: "(int \<Rightarrow> bool) \<Rightarrow> method_t \<Rightarrow> frame \<Rightarrow> fault + step_result" where
  "if_unary cond method s =
     (if in_stack s (stack_count s - 1)
      then branch (cond (sint (stk s (stack_count s - 1)))) 1 method s
      else Inl Undefined)"

definition if_icmp :: "(int \<Rightarrow> int \<Rightarrow> bool) \<Rightarrow> method_t \<Rightarrow> frame \<Rightarrow> fault + step_result" where
  "if_icmp cond method s =
     (if in_stack s (stack_count s - 2) \<and> in_stack s (stack_count s - 1)
      then branch (cond (sint (stk s (stack_count s - 2))) (sint (stk s (stack_count s - 1))))
             2 method s
      else Inl Undefined)"

text \<open>
  \<^verbatim>\<open>operand_stack[stack_count] = locals[k]; stack_count += 1; pc += n;\<close>
\<close>

definition load_local :: "frame \<Rightarrow> nat \<Rightarrow> size_t \<Rightarrow> fault + step_result" where
  "load_local s k n =
     (if k < length (locals s) then push_value s (locals s ! k) n else Inl Undefined)"

text \<open>
  \<^verbatim>\<open>locals[k] = operand_stack[stack_count - 1]; stack_count -= 1; pc += n;\<close>
\<close>

definition store_local :: "frame \<Rightarrow> nat \<Rightarrow> size_t \<Rightarrow> fault + step_result" where
  "store_local s k n =
     (if in_stack s (stack_count s - 1) \<and> k < length (locals s)
      then Inr (Continue (s\<lparr>locals := (locals s)[k := stk s (stack_count s - 1)],
                             stack_count := stack_count s - 1,
                             pc := pc s + n\<rparr>))
      else Inl Undefined)"

text \<open>
  The loop of \<^verbatim>\<open>invokestatic\<close>,
  \<^verbatim>\<open>for (i = len - 1; i >= 0; i--) { locals_queue[i] = operand_stack[stack_count - 1];
  stack_count -= 1; }\<close>,
  with \<open>i + 1\<close> as its first argument.
\<close>

fun pop_args :: "nat \<Rightarrow> i32 list \<Rightarrow> int \<Rightarrow> i32 list \<Rightarrow> fault + (i32 list \<times> int)" where
  "pop_args 0 stack sc locals_queue = Inr (locals_queue, sc)"
| "pop_args (Suc i) stack sc locals_queue =
     (if 0 \<le> sc - 1 \<and> sc - 1 < int (length stack) \<and> i < length locals_queue
      then pop_args i stack (sc - 1) (locals_queue[i := stack ! nat (sc - 1)])
      else Inl Undefined)"

text \<open>
  \<^verbatim>\<open>int16_t index = (int16_t)((b1 << 8) | b2);\<close>: the 16 bits of \<^verbatim>\<open>index\<close>, whose value
  is their \<open>sint\<close>.
\<close>

definition invokestatic_index :: "u1 \<Rightarrow> u1 \<Rightarrow> 16 word" where
  "invokestatic_index b1 b2 = push_bit 8 (ucast b1) OR ucast b2"

text \<open>
  \<^verbatim>\<open>invokestatic\<close> up to the recursive call.
\<close>

definition invokestatic_call :: "class_file_t \<Rightarrow> method_t \<Rightarrow> frame \<Rightarrow> fault + step_result" where
  "invokestatic_call cls method s =
     (if in_code method (pc s + 1) \<and> in_code method (pc s + 2)
      then (case find_method_from_index
                   (invokestatic_index (code_at method (pc s + 1)) (code_at method (pc s + 2))) cls of
              None \<Rightarrow> Inl Undefined
            | Some meth \<Rightarrow>
                (case pop_args (unat (get_number_of_parameters meth)) (operand_stack s)
                        (stack_count s) (replicate (max_locals (code meth)) 0) of
                   Inl f \<Rightarrow> Inl f
                 | Inr (locals_queue, sc) \<Rightarrow> Inr (Call meth locals_queue (s\<lparr>stack_count := sc\<rparr>))))
      else Inl Undefined)"

text \<open>
  \<^verbatim>\<open>invokestatic\<close> after the recursive call: \<open>res\<close> is what the callee returned and
  \<open>callee\<close> its last frame, of which the heap and the output live on.
\<close>

definition invokestatic_return :: "optional_value_t \<Rightarrow> frame \<Rightarrow> frame \<Rightarrow> fault + frame" where
  "invokestatic_return res callee s =
     (if has_value res
      then (if in_stack s (stack_count s)
            then Inr (s\<lparr>operand_stack := stk_set s (stack_count s) (ret_value res),
                        stack_count := stack_count s + 1,
                        pc := pc s + 3,
                        heap := heap callee,
                        stdout := stdout callee\<rparr>)
            else Inl Undefined)
      else Inr (s\<lparr>pc := pc s + 3, heap := heap callee, stdout := stdout callee\<rparr>))"

text \<open>
  The loop of \<^verbatim>\<open>newarray\<close>, \<^verbatim>\<open>for (int i = 1; i <= count; i++) { new_array[i] = 0; }\<close>.
\<close>

function zero_fill :: "nat \<Rightarrow> nat \<Rightarrow> i32 list \<Rightarrow> i32 list" where
  "zero_fill i count new_array =
     (if i \<le> count then zero_fill (i + 1) count (new_array[i := 0]) else new_array)"
  by pat_completeness auto
termination
  by (relation "measure (\<lambda>(i, count, new_array). Suc count - i)") auto

declare zero_fill.simps [simp del]

text \<open>
  \<^verbatim>\<open>newarray\<close>. For the count \<open>2\<^sup>3\<^sup>1 - 1\<close> the sum \<^verbatim>\<open>count + 1\<close> is outside of
  \<^verbatim>\<open>int32_t\<close>: the compiled \<^verbatim>\<open>assert\<close> lets it pass (the test is the same as
  \<^verbatim>\<open>count >= 0\<close> when the sum does not overflow), \<^verbatim>\<open>calloc\<close> is asked for the wrapped
  size and returns a null pointer, and \<^verbatim>\<open>new_array[0] = count\<close> writes through it.
\<close>

definition newarray :: "frame \<Rightarrow> fault + step_result" where
  "newarray s =
     (if \<not> in_stack s (stack_count s - 1) then Inl Undefined
      else let count = stk s (stack_count s - 1) in
        if sint count = 2 ^ 31 - 1 then Inl Undefined
        else if \<not> 0 < sint (count + 1) then Inl AssertionFailed
        else let new_array = zero_fill 1 (nat (sint count))
                               ((replicate (nat (sint (count + 1))) 0)[0 := count]);
                 (h, ref) = heap_add (heap s) new_array
             in Inr (Continue (s\<lparr>operand_stack := stk_set s (stack_count s - 1) ref,
                                  pc := pc s + 2,
                                  heap := h\<rparr>)))"

definition arraylength :: "frame \<Rightarrow> fault + step_result" where
  "arraylength s =
     (if \<not> in_stack s (stack_count s - 1) then Inl Undefined
      else let ref = stk s (stack_count s - 1) in
        if \<not> heap_has (heap s) ref then Inl Undefined
        else if heap_get (heap s) ref = [] then Inl Undefined
        else Inr (Continue (s\<lparr>operand_stack :=
                                 stk_set s (stack_count s - 1) (heap_get (heap s) ref ! 0),
                               pc := pc s + 1\<rparr>)))"

text \<open>
  \<open>in_array arr index\<close>: slot \<^verbatim>\<open>index + 1\<close> lies inside the backing array.
\<close>

definition in_array :: "i32 list \<Rightarrow> i32 \<Rightarrow> bool" where
  "in_array arr index \<longleftrightarrow> 0 \<le> sint (index + 1) \<and> nat (sint (index + 1)) < length arr"

definition iaload :: "frame \<Rightarrow> fault + step_result" where
  "iaload s =
     (if \<not> (in_stack s (stack_count s - 1) \<and> in_stack s (stack_count s - 2)) then Inl Undefined
      else let index = stk s (stack_count s - 1);
               ref = stk s (stack_count s - 2) in
        if \<not> heap_has (heap s) ref then Inl Undefined
        else let arr = heap_get (heap s) ref in
          if \<not> in_array arr index then Inl Undefined
          else Inr (Continue (s\<lparr>operand_stack :=
                                   stk_set s (stack_count s - 2) (arr ! nat (sint (index + 1))),
                                 stack_count := stack_count s - 1,
                                 pc := pc s + 1\<rparr>)))"

definition iastore :: "frame \<Rightarrow> fault + step_result" where
  "iastore s =
     (if \<not> (in_stack s (stack_count s - 1) \<and> in_stack s (stack_count s - 2)
            \<and> in_stack s (stack_count s - 3)) then Inl Undefined
      else let val = stk s (stack_count s - 1);
               index = stk s (stack_count s - 2);
               ref = stk s (stack_count s - 3) in
        if \<not> heap_has (heap s) ref then Inl Undefined
        else let arr = heap_get (heap s) ref in
          if \<not> in_array arr index then Inl Undefined
          else Inr (Continue (s\<lparr>stack_count := stack_count s - 3,
                                 pc := pc s + 1,
                                 heap := (heap s)[nat (sint ref) :=
                                           arr[nat (sint (index + 1)) := val]]\<rparr>)))"

section \<open>The switch and the loop\<close>

text \<open>
  The \<^verbatim>\<open>switch\<close> of \<^verbatim>\<open>execute\<close>, case by case in the order of the source; \<open>op\<close> is
  \<^verbatim>\<open>method->code.code[pc]\<close>. The \<^verbatim>\<open>switch\<close> has no \<^verbatim>\<open>default\<close>: for any other byte no
  statement runs, and the loop goes on with the frame as it is. The three shifts are
  \<^verbatim>\<open>a << b\<close> and \<^verbatim>\<open>a >> b\<close> in the source, with no mask; for a count of 32 or more
  the compiled program shifts by the low five bits of the count.
\<close>

definition execute_instr :: "u1 \<Rightarrow> class_file_t \<Rightarrow> method_t \<Rightarrow> frame \<Rightarrow> fault + step_result" where
  "execute_instr op cls method s =
     (if op = i_bipush then
        (if in_code method (pc s + 1)
         then push_value s (scast (code_at method (pc s + 1))) 2
         else Inl Undefined)
      else if op = i_iadd then binop s (\<lambda>sec top. top + sec)
      else if op = i_return then Inr (Return \<lparr>has_value = False, ret_value = 0\<rparr>)
      else if op = i_getstatic then Inr (Continue (s\<lparr>pc := pc s + 3\<rparr>))
      else if op = i_invokevirtual then
        (if in_stack s (stack_count s - 1)
         then Inr (Continue (s\<lparr>stack_count := stack_count s - 1,
                                pc := pc s + 3,
                                stdout := stdout s @ [stk s (stack_count s - 1)]\<rparr>))
         else Inl Undefined)
      else if op = i_iconst_m1 \<or> op = i_iconst_0 \<or> op = i_iconst_1 \<or> op = i_iconst_2
              \<or> op = i_iconst_3 \<or> op = i_iconst_4 \<or> op = i_iconst_5 then
        push_value s (ucast op - 3) 1
      else if op = i_sipush then
        (if in_code method (pc s + 1) \<and> in_code method (pc s + 2)
         then push_value s (scast (int16_operand method (pc s))) 3
         else Inl Undefined)
      else if op = i_isub then binop s (\<lambda>sec top. sec - top)
      else if op = i_imul then binop s (\<lambda>sec top. sec * top)
      else if op = i_idiv then
        asserted_binop s (\<lambda>top. top \<noteq> 0)
          (\<lambda>sec top. \<not> (sint sec = - (2 ^ 31) \<and> sint top = - 1))
          (\<lambda>sec top. word_of_int (sint sec sdiv sint top))
      else if op = i_irem then
        asserted_binop s (\<lambda>top. top \<noteq> 0)
          (\<lambda>sec top. \<not> (sint sec = - (2 ^ 31) \<and> sint top = - 1))
          (\<lambda>sec top. word_of_int (sint sec smod sint top))
      else if op = i_ineg then
        (if in_stack s (stack_count s - 1)
         then Inr (Continue (s\<lparr>operand_stack :=
                                  stk_set s (stack_count s - 1) (- 1 * stk s (stack_count s - 1)),
                                pc := pc s + 1\<rparr>))
         else Inl Undefined)
      else if op = i_ishl then
        asserted_binop s (\<lambda>top. 0 \<le> sint top) (\<lambda>sec top. True)
          (\<lambda>sec top. push_bit (unat (top AND 31)) sec)
      else if op = i_ishr then
        asserted_binop s (\<lambda>top. 0 \<le> sint top) (\<lambda>sec top. True)
          (\<lambda>sec top. signed_drop_bit (unat (top AND 31)) sec)
      else if op = i_iushr then
        asserted_binop s (\<lambda>top. 0 \<le> sint top) (\<lambda>sec top. True)
          (\<lambda>sec top. drop_bit (unat (top AND 31)) sec)
      else if op = i_iand then binop s (\<lambda>sec top. sec AND top)
      else if op = i_ior then binop s (\<lambda>sec top. sec OR top)
      else if op = i_ixor then binop s (\<lambda>sec top. sec XOR top)
      else if op = i_iload then
        (if in_code method (pc s + 1)
         then load_local s (unat (code_at method (pc s + 1))) 2
         else Inl Undefined)
      else if op = i_iload_0 \<or> op = i_iload_1 \<or> op = i_iload_2 \<or> op = i_iload_3 then
        load_local s (nat (uint op - uint i_iload_0)) 1
      else if op = i_istore then
        (if in_code method (pc s + 1)
         then store_local s (unat (code_at method (pc s + 1))) 2
         else Inl Undefined)
      else if op = i_istore_0 \<or> op = i_istore_1 \<or> op = i_istore_2 \<or> op = i_istore_3 then
        store_local s (nat (uint op - uint i_istore_0)) 1
      else if op = i_iinc then
        (if in_code method (pc s + 1) \<and> in_code method (pc s + 2)
            \<and> unat (code_at method (pc s + 1)) < length (locals s)
         then Inr (Continue (s\<lparr>pc := pc s + 3,
                                locals := (locals s)[unat (code_at method (pc s + 1)) :=
                                            locals s ! unat (code_at method (pc s + 1))
                                              + scast (code_at method (pc s + 2))]\<rparr>))
         else Inl Undefined)
      else if op = i_ldc then
        (if in_code method (pc s + 1)
         then (let b = uint (code_at method (pc s + 1)) in
               if 0 \<le> b - 1 \<and> nat (b - 1) < length (constant_pool cls)
               then (case constant_pool cls ! nat (b - 1) of
                       CONSTANT_Integer bytes \<Rightarrow> push_value s bytes 2
                     | CONSTANT_other \<Rightarrow> Inl Undefined)
               else Inl Undefined)
         else Inl Undefined)
      else if op = i_ifeq then if_unary (\<lambda>v. v = 0) method s
      else if op = i_ifne then if_unary (\<lambda>v. v \<noteq> 0) method s
      else if op = i_iflt then if_unary (\<lambda>v. v < 0) method s
      else if op = i_ifge then if_unary (\<lambda>v. v \<ge> 0) method s
      else if op = i_ifgt then if_unary (\<lambda>v. v > 0) method s
      else if op = i_ifle then if_unary (\<lambda>v. v \<le> 0) method s
      else if op = i_if_icmpeq then if_icmp (\<lambda>a b. a = b) method s
      else if op = i_if_icmpne then if_icmp (\<lambda>a b. a \<noteq> b) method s
      else if op = i_if_icmplt then if_icmp (\<lambda>a b. a < b) method s
      else if op = i_if_icmpge then if_icmp (\<lambda>a b. a \<ge> b) method s
      else if op = i_if_icmpgt then if_icmp (\<lambda>a b. a > b) method s
      else if op = i_if_icmple then if_icmp (\<lambda>a b. a \<le> b) method s
      else if op = i_goto then
        (if in_code method (pc s + 1) \<and> in_code method (pc s + 2)
         then Inr (Continue (s\<lparr>pc := pc s + scast (int16_operand method (pc s))\<rparr>))
         else Inl Undefined)
      else if op = i_ireturn then
        (if in_stack s (stack_count s - 1)
         then Inr (Return \<lparr>has_value = True, ret_value = stk s (stack_count s - 1)\<rparr>)
         else Inl Undefined)
      else if op = i_invokestatic then invokestatic_call cls method s
      else if op = i_nop then Inr (Continue (s\<lparr>pc := pc s + 1\<rparr>))
      else if op = i_dup then
        (if in_stack s (stack_count s - 1)
         then push_value s (stk s (stack_count s - 1)) 1
         else Inl Undefined)
      else if op = i_newarray then newarray s
      else if op = i_arraylength then arraylength s
      else if op = i_areturn then
        (if in_stack s (stack_count s - 1)
         then Inr (Return \<lparr>has_value = True, ret_value = stk s (stack_count s - 1)\<rparr>)
         else Inl Undefined)
      else if op = i_iaload then iaload s
      else if op = i_aload then
        (if in_code method (pc s + 1)
         then load_local s (unat (code_at method (pc s + 1))) 2
         else Inl Undefined)
      else if op = i_aload_0 \<or> op = i_aload_1 \<or> op = i_aload_2 \<or> op = i_aload_3 then
        load_local s (nat (uint op - uint i_aload_0)) 1
      else if op = i_iastore then iastore s
      else if op = i_astore then
        (if in_code method (pc s + 1)
         then store_local s (unat (code_at method (pc s + 1))) 2
         else Inl Undefined)
      else if op = i_astore_0 \<or> op = i_astore_1 \<or> op = i_astore_2 \<or> op = i_astore_3 then
        store_local s (nat (uint op - uint i_astore_0)) 1
      else Inr (Continue s))"

text \<open>
  The \<^verbatim>\<open>case\<close> labels of the \<^verbatim>\<open>switch\<close>, in the order of the source.
\<close>

definition handled_opcodes :: "u1 list" where
  "handled_opcodes =
     [i_bipush, i_iadd, i_return, i_getstatic, i_invokevirtual,
      i_iconst_m1, i_iconst_0, i_iconst_1, i_iconst_2, i_iconst_3, i_iconst_4, i_iconst_5,
      i_sipush, i_isub, i_imul, i_idiv, i_irem, i_ineg, i_ishl, i_ishr, i_iushr,
      i_iand, i_ior, i_ixor, i_iload, i_iload_0, i_iload_1, i_iload_2, i_iload_3,
      i_istore, i_istore_0, i_istore_1, i_istore_2, i_istore_3, i_iinc, i_ldc,
      i_ifeq, i_ifne, i_iflt, i_ifge, i_ifgt, i_ifle,
      i_if_icmpeq, i_if_icmpne, i_if_icmplt, i_if_icmpge, i_if_icmpgt, i_if_icmple,
      i_goto, i_ireturn, i_invokestatic, i_nop, i_dup, i_newarray, i_arraylength,
      i_areturn, i_iaload, i_aload, i_aload_0, i_aload_1, i_aload_2, i_aload_3,
      i_iastore, i_astore, i_astore_0, i_astore_1, i_astore_2, i_astore_3]"

text \<open>
  The frame at the start of \<^verbatim>\<open>execute\<close>: \<^verbatim>\<open>pc = 0\<close>, an operand stack of
  \<^verbatim>\<open>max_stack\<close> zeros from \<^verbatim>\<open>calloc\<close>, \<^verbatim>\<open>stack_count = 0\<close>.
\<close>

definition initial_frame :: "method_t \<Rightarrow> i32 list \<Rightarrow> heap_t \<Rightarrow> i32 list \<Rightarrow> frame" where
  "initial_frame method lcls h out =
     \<lparr>pc = 0, operand_stack = replicate (max_stack (code method)) 0, stack_count = 0,
      locals = lcls, heap = h, stdout = out\<rparr>"

text \<open>
  The loop of \<^verbatim>\<open>execute\<close> from a frame on. It returns the method's result with the last
  frame, \<open>Inl\<close> a fault, or \<open>None\<close> when the fuel is used up. Each pass through the loop
  and each nested call takes one unit of fuel.
\<close>

fun run :: "nat \<Rightarrow> class_file_t \<Rightarrow> method_t \<Rightarrow> frame \<Rightarrow> (fault + optional_value_t \<times> frame) option" where
  "run 0 cls method s = None"
| "run (Suc k) cls method s =
     (if \<not> in_code method (pc s) then Some (Inr (\<lparr>has_value = False, ret_value = 0\<rparr>, s))
      else (case execute_instr (code_at method (pc s)) cls method s of
              Inl f \<Rightarrow> Some (Inl f)
            | Inr (Continue s') \<Rightarrow> run k cls method s'
            | Inr (Return res) \<Rightarrow> Some (Inr (res, s))
            | Inr (Call meth locals_queue s') \<Rightarrow>
                (case run k cls meth (initial_frame meth locals_queue (heap s') (stdout s')) of
                   None \<Rightarrow> None
                 | Some (Inl f) \<Rightarrow> Some (Inl f)
                 | Some (Inr (res, callee)) \<Rightarrow>
                     (case invokestatic_return res callee s' of
                        Inl f \<Rightarrow> Some (Inl f)
                      | Inr s'' \<Rightarrow> run k cls method s''))))"

text \<open>
  \<^verbatim>\<open>execute(method, locals, class, heap)\<close>, with the output so far as one more argument.
\<close>

definition execute ::
  "nat \<Rightarrow> method_t \<Rightarrow> i32 list \<Rightarrow> class_file_t \<Rightarrow> heap_t \<Rightarrow> i32 list
     \<Rightarrow> (fault + optional_value_t \<times> frame) option" where
  "execute fuel method lcls cls h out = run fuel cls method (initial_frame method lcls h out)"

text \<open>
  The frame at the next instruction boundary of the same activation: defined when the
  instruction at \<open>pc\<close> runs to its end (for \<^verbatim>\<open>invokestatic\<close>: the callee returns within
  the fuel) and the loop goes on.
\<close>

definition next_frame :: "nat \<Rightarrow> class_file_t \<Rightarrow> method_t \<Rightarrow> frame \<Rightarrow> frame option" where
  "next_frame k cls method s =
     (if \<not> in_code method (pc s) then None
      else (case execute_instr (code_at method (pc s)) cls method s of
              Inr (Continue s') \<Rightarrow> Some s'
            | Inr (Call meth locals_queue s') \<Rightarrow>
                (case run k cls meth (initial_frame meth locals_queue (heap s') (stdout s')) of
                   Some (Inr (res, callee)) \<Rightarrow>
                     (case invokestatic_return res callee s' of
                        Inr s'' \<Rightarrow> Some s''
                      | Inl f \<Rightarrow> None)
                 | _ \<Rightarrow> None)
            | _ \<Rightarrow> None))"

text \<open>
  The frames that an activation started in \<open>s0\<close> has at its instruction boundaries.
\<close>

inductive boundary :: "class_file_t \<Rightarrow> method_t \<Rightarrow> frame \<Rightarrow> frame \<Rightarrow> bool"
  for cls :: class_file_t and m :: method_t and s0 :: frame where
  boundary_start: "boundary cls m s0 s0"
| boundary_next: "boundary cls m s0 s \<Longrightarrow> next_frame k cls m s = Some s'
                  \<Longrightarrow> boundary cls m s0 s'"

text \<open>
  The cursor \<^verbatim>\<open>stack_count\<close> lies within the allocated operand stack.
\<close>

definition stack_ok :: "frame \<Rightarrow> bool" where
  "stack_ok s \<longleftrightarrow> 0 \<le> stack_count s \<and> stack_count s \<le> int (length (operand_stack s))"

section \<open>Example inputs\<close>

text \<open>
  A class with an empty constant pool and no method reference, a method that only
  carries capacities and code, and a frame at \<open>pc = 0\<close> whose operand stack is full.
\<close>

definition empty_class :: class_file_t where
  "empty_class =
     \<lparr>constant_pool = [], index_parameter = UnsignedIndex, method_at_index = (\<lambda>i. None)\<rparr>"

definition method_of :: "nat \<Rightarrow> nat \<Rightarrow> u1 list \<Rightarrow> method_t" where
  "method_of ms ml bytes =
     \<lparr>code = \<lparr>max_stack = ms, max_locals = ml, code_bytes = bytes\<rparr>, number_of_parameters = 0\<rparr>"

definition frame_with :: "i32 list \<Rightarrow> heap_t \<Rightarrow> frame" where
  "frame_with stack h =
     \<lparr>pc = 0, operand_stack = stack, stack_count = int (length stack), locals = [],
      heap = h, stdout = []\<rparr>"

definition frame_at :: "size_t \<Rightarrow> i32 list \<Rightarrow> heap_t \<Rightarrow> frame" where
  "frame_at p stack h =
     \<lparr>pc = p, operand_stack = stack, stack_count = int (length stack), locals = [],
      heap = h, stdout = []\<rparr>"

text \<open>
  A class whose constant-pool index \<open>i\<close> resolves to one method, and a static method of
  two parameters that returns the first minus the second.
\<close>

definition class_with :: "int \<Rightarrow> method_t \<Rightarrow> class_file_t" where
  "class_with i meth =
     \<lparr>constant_pool = [], index_parameter = UnsignedIndex,
      method_at_index = (\<lambda>j. if j = i then Some meth else None)\<rparr>"

definition callee_sub :: method_t where
  "callee_sub =
     \<lparr>code = \<lparr>max_stack = 2, max_locals = 3,
              code_bytes = [i_iload_0, i_iload_1, i_isub, i_ireturn]\<rparr>,
      number_of_parameters = 2\<rparr>"


definition frame_locals :: "i32 list \<Rightarrow> i32 list \<Rightarrow> frame" where
  "frame_locals stack lcls =
     \<lparr>pc = 0, operand_stack = stack, stack_count = 0, locals = lcls, heap = [], stdout = []\<rparr>"

text \<open>
  A class whose constant pool holds the integer \<open>2\<^sup>3\<^sup>1 - 1\<close>, and a method that loads
  it and asks for an array of that many elements.
\<close>

definition class_int_max :: class_file_t where
  "class_int_max =
     \<lparr>constant_pool = [CONSTANT_Integer 0x7fffffff], index_parameter = UnsignedIndex,
      method_at_index = (\<lambda>i. None)\<rparr>"

definition method_int_max_array :: method_t where
  "method_int_max_array = method_of 1 1 [i_ldc, 1, i_newarray, 10, i_return]"

section \<open>Operand bytes\<close>

text \<open>
  The two operand bytes of a three-byte instruction, read big-endian, and the value of the
  16-bit word as a signed number.
\<close>

lemma uint_u1_bound: "0 \<le> uint (b :: u1) \<and> uint b < 256"
  using uint_lt2p [of b] by simp

lemma uint_ucast_u1: "uint (ucast (b :: u1) :: 16 word) = uint b"
  by (simp add: uint_up_ucast is_up)

lemma be16_uint:
  "uint (push_bit 8 (ucast (b1 :: u1)) OR ucast (b2 :: u1) :: 16 word) = uint b1 * 256 + uint b2"
proof -
  have bnd: "uint b1 * 256 + uint b2 < 65536" "0 \<le> uint b1 * 256 + uint b2"
    using uint_u1_bound [of b1] uint_u1_bound [of b2] by auto
  have "(push_bit 8 (ucast b1) OR ucast b2 :: 16 word) = push_bit 8 (ucast b1) + ucast b2"
    by (rule disjunctive_add_eq_or [symmetric])
       (auto simp: bit_eq_iff bit_simps dest: bit_imp_le_length)
  moreover have "uint (push_bit 8 (ucast b1) :: 16 word) = uint b1 * 256"
  proof -
    have "uint b1 * 256 mod 65536 = uint b1 * 256"
      using uint_u1_bound [of b1] by (intro mod_pos_pos_trivial) auto
    then show ?thesis
      by (simp add: push_bit_eq_mult uint_word_ariths uint_ucast_u1)
  qed
  ultimately show ?thesis
    using bnd by (simp add: uint_word_ariths uint_ucast_u1)
qed

lemma sint_16: "sint (w :: 16 word) = (if uint w < 32768 then uint w else uint w - 65536)"
proof -
  have b: "0 \<le> uint w" "uint w < 65536" using uint_lt2p [of w] by simp_all
  have "sint w = (uint w + 32768) mod 65536 - 32768"
    by (simp add: sint_uint signed_take_bit_eq_take_bit_shift take_bit_eq_mod)
  moreover have "(uint w + 32768) mod 65536 = uint w + 32768" if "uint w < 32768"
    using b that by (intro mod_pos_pos_trivial) auto
  moreover have "(uint w + 32768) mod 65536 = uint w - 32768" if "\<not> uint w < 32768"
  proof -
    have e: "uint w + 32768 = (uint w - 32768) + 65536" by simp
    have "(uint w + 32768) mod 65536 = (uint w - 32768) mod 65536"
      unfolding e by (simp only: mod_add_self2)
    also have "\<dots> = uint w - 32768" using b that by (intro mod_pos_pos_trivial) auto
    finally show ?thesis .
  qed
  ultimately show ?thesis by auto
qed

section \<open>The constant-pool index of invokestatic\<close>





section \<open>Loads of references and of integers\<close>

text \<open>
  C9. On every frame the handler of \<^verbatim>\<open>aload\<close> gives the same result as the handler of
  \<^verbatim>\<open>iload\<close>, and \<^verbatim>\<open>aload_k\<close> the same as \<^verbatim>\<open>iload_k\<close> for \<open>k\<close> from 0 to 3. With
  \<open>k\<close> inside the locals and a free slot on the operand stack, the result is the frame
  with \<^verbatim>\<open>locals[k]\<close> written to the slot at \<^verbatim>\<open>stack_count\<close>, \<^verbatim>\<open>stack_count\<close> one
  higher and \<^verbatim>\<open>pc\<close> advanced by 1 (short form) or by 2 (operand form, \<open>k\<close> being the
  operand byte, which has to lie inside the code); locals, heap and output are as
  before. Otherwise both handlers read or write outside an array.
\<close>

theorem aload_same_as_iload:
  "execute_instr i_aload cls m s = execute_instr i_iload cls m s
   \<and> execute_instr i_aload_0 cls m s = execute_instr i_iload_0 cls m s
   \<and> execute_instr i_aload_1 cls m s = execute_instr i_iload_1 cls m s
   \<and> execute_instr i_aload_2 cls m s = execute_instr i_iload_2 cls m s
   \<and> execute_instr i_aload_3 cls m s = execute_instr i_iload_3 cls m s
   \<and> execute_instr i_aload_0 cls m s =
        (if 0 < length (locals s) \<and> 0 \<le> stack_count s
            \<and> stack_count s < int (length (operand_stack s))
         then Inr (Continue (s\<lparr>operand_stack := (operand_stack s)[nat (stack_count s) := locals s ! 0],
                                stack_count := stack_count s + 1, pc := pc s + 1\<rparr>))
         else Inl Undefined)
   \<and> execute_instr i_aload_1 cls m s =
        (if 1 < length (locals s) \<and> 0 \<le> stack_count s
            \<and> stack_count s < int (length (operand_stack s))
         then Inr (Continue (s\<lparr>operand_stack := (operand_stack s)[nat (stack_count s) := locals s ! 1],
                                stack_count := stack_count s + 1, pc := pc s + 1\<rparr>))
         else Inl Undefined)
   \<and> execute_instr i_aload_2 cls m s =
        (if 2 < length (locals s) \<and> 0 \<le> stack_count s
            \<and> stack_count s < int (length (operand_stack s))
         then Inr (Continue (s\<lparr>operand_stack := (operand_stack s)[nat (stack_count s) := locals s ! 2],
                                stack_count := stack_count s + 1, pc := pc s + 1\<rparr>))
         else Inl Undefined)
   \<and> execute_instr i_aload_3 cls m s =
        (if 3 < length (locals s) \<and> 0 \<le> stack_count s
            \<and> stack_count s < int (length (operand_stack s))
         then Inr (Continue (s\<lparr>operand_stack := (operand_stack s)[nat (stack_count s) := locals s ! 3],
                                stack_count := stack_count s + 1, pc := pc s + 1\<rparr>))
         else Inl Undefined)
   \<and> execute_instr i_aload cls m s =
        (if unat (pc s + 1) < length (code_bytes (code m))
            \<and> unat (code_bytes (code m) ! unat (pc s + 1)) < length (locals s)
            \<and> 0 \<le> stack_count s \<and> stack_count s < int (length (operand_stack s))
         then Inr (Continue (s\<lparr>operand_stack :=
                                  (operand_stack s)[nat (stack_count s) :=
                                     locals s ! unat (code_bytes (code m) ! unat (pc s + 1))],
                                stack_count := stack_count s + 1, pc := pc s + 2\<rparr>))
         else Inl Undefined)"
  by (simp add: execute_instr_def load_local_def push_value_def in_stack_def stk_set_def
        in_code_def code_at_def code_length_def)

theorem aload_same_as_iload_witness:
  "execute_instr i_aload_2 empty_class (method_of 2 5 [i_aload, 4])
       (frame_locals [0, 0] [10, 20, 30, 40, 50]) =
     Inr (Continue \<lparr>pc = 1, operand_stack = [30, 0], stack_count = 1,
                     locals = [10, 20, 30, 40, 50], heap = [], stdout = []\<rparr>)
   \<and> execute_instr i_iload_2 empty_class (method_of 2 5 [i_aload, 4])
       (frame_locals [0, 0] [10, 20, 30, 40, 50]) =
     Inr (Continue \<lparr>pc = 1, operand_stack = [30, 0], stack_count = 1,
                     locals = [10, 20, 30, 40, 50], heap = [], stdout = []\<rparr>)
   \<and> execute_instr i_aload empty_class (method_of 2 5 [i_aload, 4])
       (frame_locals [0, 0] [10, 20, 30, 40, 50]) =
     Inr (Continue \<lparr>pc = 2, operand_stack = [50, 0], stack_count = 1,
                     locals = [10, 20, 30, 40, 50], heap = [], stdout = []\<rparr>)
   \<and> execute_instr i_iload empty_class (method_of 2 5 [i_aload, 4])
       (frame_locals [0, 0] [10, 20, 30, 40, 50]) =
     Inr (Continue \<lparr>pc = 2, operand_stack = [50, 0], stack_count = 1,
                     locals = [10, 20, 30, 40, 50], heap = [], stdout = []\<rparr>)
   \<and> execute_instr i_aload_3 empty_class (method_of 2 5 [i_aload, 4])
       (frame_locals [0, 0] [10, 20, 30]) = Inl Undefined
   \<and> execute_instr i_iload_3 empty_class (method_of 2 5 [i_aload, 4])
       (frame_locals [0, 0] [10, 20, 30]) = Inl Undefined"
proof -
  let ?m = "method_of 2 5 [i_aload, 4]"
  let ?s = "frame_locals [0, 0] [10, 20, 30, 40, 50]"
  let ?t = "frame_locals [0, 0] [10, 20, 30]"
  note l = aload_same_as_iload [of empty_class ?m ?s]
  note l' = aload_same_as_iload [of empty_class ?m ?t]
  note c2 = conjunct2
  have e2: "execute_instr i_aload_2 empty_class ?m ?s = execute_instr i_iload_2 empty_class ?m ?s"
    by (rule l [THEN c2, THEN c2, THEN c2, THEN conjunct1])
  have e: "execute_instr i_aload empty_class ?m ?s = execute_instr i_iload empty_class ?m ?s"
    by (rule l [THEN conjunct1])
  have e3: "execute_instr i_aload_3 empty_class ?m ?t = execute_instr i_iload_3 empty_class ?m ?t"
    by (rule l' [THEN c2, THEN c2, THEN c2, THEN c2, THEN conjunct1])
  have a2: "execute_instr i_aload_2 empty_class ?m ?s =
     Inr (Continue \<lparr>pc = 1, operand_stack = [30, 0], stack_count = 1,
                     locals = [10, 20, 30, 40, 50], heap = [], stdout = []\<rparr>)"
    using l [THEN c2, THEN c2, THEN c2, THEN c2, THEN c2, THEN c2, THEN c2, THEN conjunct1]
    by (simp add: frame_locals_def)
  have a: "execute_instr i_aload empty_class ?m ?s =
     Inr (Continue \<lparr>pc = 2, operand_stack = [50, 0], stack_count = 1,
                     locals = [10, 20, 30, 40, 50], heap = [], stdout = []\<rparr>)"
    using l [THEN c2, THEN c2, THEN c2, THEN c2, THEN c2, THEN c2, THEN c2, THEN c2, THEN c2]
    by (simp add: frame_locals_def method_of_def)
  have a3: "execute_instr i_aload_3 empty_class ?m ?t = Inl Undefined"
    using l' [THEN c2, THEN c2, THEN c2, THEN c2, THEN c2, THEN c2, THEN c2, THEN c2,
              THEN conjunct1]
    by (simp add: frame_locals_def)
  from a2 a a3 show ?thesis unfolding e2 e e3 by simp
qed

section \<open>Signed 32-bit values\<close>

lemma sint_succ: "sint (w :: i32) < 2 ^ 31 - 1 \<Longrightarrow> sint (w + 1) = sint w + 1"
proof -
  assume a: "sint w < 2 ^ 31 - 1"
  have "- (2 ^ 31) \<le> sint w" using sint_ge [of w] by simp
  with a have "signed_take_bit 31 (sint w + 1) = sint w + 1"
    by (intro signed_take_bit_int_eq_self) auto
  then show ?thesis by (simp add: sint_word_ariths)
qed

lemma sint_32:
  "sint (w :: i32) = (if uint w < 2147483648 then uint w else uint w - 4294967296)"
proof -
  have b: "0 \<le> uint w" "uint w < 4294967296" using uint_lt2p [of w] by simp_all
  have "sint w = (uint w + 2147483648) mod 4294967296 - 2147483648"
    by (simp add: sint_uint signed_take_bit_eq_take_bit_shift take_bit_eq_mod)
  moreover have "(uint w + 2147483648) mod 4294967296 = uint w + 2147483648"
    if "uint w < 2147483648"
    using b that by (intro mod_pos_pos_trivial) auto
  moreover have "(uint w + 2147483648) mod 4294967296 = uint w - 2147483648"
    if "\<not> uint w < 2147483648"
  proof -
    have e: "uint w + 2147483648 = (uint w - 2147483648) + 4294967296" by simp
    have "(uint w + 2147483648) mod 4294967296 = (uint w - 2147483648) mod 4294967296"
      unfolding e by (simp only: mod_add_self2)
    also have "\<dots> = uint w - 2147483648" using b that by (intro mod_pos_pos_trivial) auto
    finally show ?thesis .
  qed
  ultimately show ?thesis by auto
qed

lemma sint_nonneg_uint: "0 \<le> sint (w :: i32) \<Longrightarrow> uint w = sint w"
  using uint_lt2p [of w] by (simp add: sint_32 split: if_splits)

lemma low_five_bits:
  assumes "0 \<le> sint (b :: i32)"
  shows "unat (b AND 31) = nat (sint b mod 32)"
proof -
  have "b AND 31 = take_bit 5 b" by (simp add: take_bit_eq_mask mask_eq_exp_minus_1)
  then have "uint (b AND 31) = uint b mod 32"
    by (simp add: unsigned_take_bit_eq take_bit_eq_mod uint_mod_distrib)
  then show ?thesis
    using sint_nonneg_uint [OF assms] by (simp add: unat_eq_nat_uint)
qed

section \<open>The array made by newarray\<close>

text \<open>
  The loop of \<^verbatim>\<open>newarray\<close> writes zeros over the zeros of \<^verbatim>\<open>calloc\<close>: the new array is
  the count followed by \<open>count\<close> zeros.
\<close>

lemma zero_fill_zeros:
  "(\<And>j. i \<le> j \<Longrightarrow> j \<le> count \<Longrightarrow> j < length xs \<Longrightarrow> xs ! j = 0) \<Longrightarrow> zero_fill i count xs = xs"
proof (induction i count xs rule: zero_fill.induct)
  case (1 i count new_array)
  show ?case
  proof (cases "i \<le> count")
    case True
    have eq: "new_array[i := 0] = new_array"
    proof (cases "i < length new_array")
      case True
      with 1(2) [of i] \<open>i \<le> count\<close> have "new_array ! i = 0" by simp
      then show ?thesis by (metis list_update_id)
    next
      case False
      then show ?thesis by (simp add: list_update_beyond)
    qed
    have "zero_fill (i + 1) count (new_array[i := 0]) = new_array[i := 0]"
      using True 1(2) by (intro 1(1)) (auto simp: eq)
    with True eq show ?thesis by (simp add: zero_fill.simps [of i])
  next
    case False
    then show ?thesis by (simp add: zero_fill.simps [of i])
  qed
qed

lemma new_array_contents:
  "zero_fill (Suc 0) n ((replicate (Suc n) 0)[0 := c]) = c # replicate n 0"
  by (subst zero_fill_zeros) (auto simp: nth_Cons')



section \<open>ishl\<close>

text \<open>
  C3. With the two operands on the operand stack, \<open>b\<close> on top of \<open>a\<close>: for every
  \<open>b \<ge> 0\<close>, \<^verbatim>\<open>ishl\<close> replaces them by \<open>a << (b & 31)\<close>, the shift amount being \<open>b\<close>
  modulo 32, with one value less on the stack and \<^verbatim>\<open>pc\<close> advanced by 1; for a
  negative \<open>b\<close> the \<^verbatim>\<open>assert\<close> fails.
\<close>

theorem ishl_masks_shift_amount:
  assumes "2 \<le> stack_count s" and "stack_count s \<le> int (length (operand_stack s))"
    and "b = operand_stack s ! nat (stack_count s - 1)"
    and "a = operand_stack s ! nat (stack_count s - 2)"
  shows "(0 \<le> sint b \<longrightarrow>
           execute_instr i_ishl cls m s =
             Inr (Continue (s\<lparr>operand_stack :=
                                (operand_stack s)[nat (stack_count s - 2) :=
                                   push_bit (unat (b AND 31)) a],
                              stack_count := stack_count s - 1,
                              pc := pc s + 1\<rparr>))
           \<and> unat (b AND 31) = nat (sint b mod 32))
       \<and> (sint b < 0 \<longrightarrow> execute_instr i_ishl cls m s = Inl AssertionFailed)"
proof -
  have i: "in_stack s (stack_count s - 1)" "in_stack s (stack_count s - 2)"
    using assms(1,2) by (simp_all add: in_stack_def)
  have v: "stk s (stack_count s - 1) = b" "stk s (stack_count s - 2) = a"
    by (simp_all add: stk_def assms(3,4))
  show ?thesis
    using i
    by (simp add: execute_instr_def asserted_binop_def binop_def v stk_set_def low_five_bits)
qed

theorem ishl_masks_shift_amount_witness:
  "execute_instr i_ishl empty_class (method_of 2 0 [i_ishl]) (frame_with [3, 4] []) =
       Inr (Continue \<lparr>pc = 1, operand_stack = [48, 4], stack_count = 1, locals = [],
                       heap = [], stdout = []\<rparr>)
   \<and> execute_instr i_ishl empty_class (method_of 2 0 [i_ishl]) (frame_with [3, 33] []) =
       Inr (Continue \<lparr>pc = 1, operand_stack = [6, 33], stack_count = 1, locals = [],
                       heap = [], stdout = []\<rparr>)
   \<and> execute_instr i_ishl empty_class (method_of 2 0 [i_ishl]) (frame_with [1, 32] []) =
       Inr (Continue \<lparr>pc = 1, operand_stack = [1, 32], stack_count = 1, locals = [],
                       heap = [], stdout = []\<rparr>)
   \<and> execute_instr i_ishl empty_class (method_of 2 0 [i_ishl]) (frame_with [3, - 1] []) =
       Inl AssertionFailed"
proof -
  have w1: "execute_instr i_ishl empty_class (method_of 2 0 [i_ishl]) (frame_with [3, 4] []) =
       Inr (Continue \<lparr>pc = 1, operand_stack = [48, 4], stack_count = 1, locals = [],
                       heap = [], stdout = []\<rparr>)"
    using ishl_masks_shift_amount
      [where s = "frame_with [3, 4] []" and cls = empty_class and m = "method_of 2 0 [i_ishl]",
       OF _ _ refl refl]
    by (simp add: frame_with_def)
  have w2: "execute_instr i_ishl empty_class (method_of 2 0 [i_ishl]) (frame_with [3, 33] []) =
       Inr (Continue \<lparr>pc = 1, operand_stack = [6, 33], stack_count = 1, locals = [],
                       heap = [], stdout = []\<rparr>)"
    using ishl_masks_shift_amount
      [where s = "frame_with [3, 33] []" and cls = empty_class and m = "method_of 2 0 [i_ishl]",
       OF _ _ refl refl]
    by (simp add: frame_with_def)
  have w3: "execute_instr i_ishl empty_class (method_of 2 0 [i_ishl]) (frame_with [1, 32] []) =
       Inr (Continue \<lparr>pc = 1, operand_stack = [1, 32], stack_count = 1, locals = [],
                       heap = [], stdout = []\<rparr>)"
    using ishl_masks_shift_amount
      [where s = "frame_with [1, 32] []" and cls = empty_class and m = "method_of 2 0 [i_ishl]",
       OF _ _ refl refl]
    by (simp add: frame_with_def)
  have w4: "execute_instr i_ishl empty_class (method_of 2 0 [i_ishl]) (frame_with [3, - 1] []) =
       Inl AssertionFailed"
    using ishl_masks_shift_amount
      [where s = "frame_with [3, - 1] []" and cls = empty_class and m = "method_of 2 0 [i_ishl]",
       OF _ _ refl refl]
    by (simp add: frame_with_def)
  from w1 w2 w3 w4 show ?thesis by simp
qed

section \<open>newarray\<close>

lemma newarray_allocates:
  assumes "in_stack s (stack_count s - 1)" and "count = stk s (stack_count s - 1)"
    and "0 \<le> sint count" and "sint count < 2 ^ 31 - 1"
  shows "execute_instr i_newarray cls m s =
           Inr (Continue (s\<lparr>operand_stack :=
                              stk_set s (stack_count s - 1)
                                (snd (heap_add (heap s) (count # replicate (nat (sint count)) 0))),
                            pc := pc s + 2,
                            heap := fst (heap_add (heap s) (count # replicate (nat (sint count)) 0))\<rparr>))"
proof -
  have s1: "sint (count + 1) = sint count + 1" using assms(4) by (rule sint_succ)
  with assms(3) have n: "nat (sint (count + 1)) = Suc (nat (sint count))"
    by (simp add: nat_add_distrib)
  have cnt: "stk s (stack_count s - 1) = count" using assms(2) by simp
  have arr: "zero_fill (Suc 0) (nat (sint count)) ((replicate (nat (sint (count + 1))) 0)[0 := count])
               = count # replicate (nat (sint count)) 0"
    unfolding n by (rule new_array_contents)
  have pos: "0 < sint (count + 1)" using assms(3) s1 by simp
  have ne: "sint count \<noteq> 2147483647" using assms(4) by simp
  show ?thesis
    using assms(1) pos ne
    by (simp add: execute_instr_def newarray_def Let_def cnt arr heap_add_def)
qed

text \<open>
  Where \<^verbatim>\<open>count + 1\<close> stays inside \<^verbatim>\<open>int32_t\<close>: for \<open>0 \<le> count < 2\<^sup>3\<^sup>1 - 1\<close> the
  \<^verbatim>\<open>assert\<close> holds and \<^verbatim>\<open>newarray\<close> registers with the heap a new array of length
  \<open>count + 1\<close>, the count in slot 0 and zeros after it, puts the reference returned by
  \<^verbatim>\<open>heap_add\<close> in place of the count and advances \<^verbatim>\<open>pc\<close> by 2; for a negative count
  the \<^verbatim>\<open>assert\<close> fails.
\<close>

lemma newarray_in_range:
  assumes "in_stack s (stack_count s - 1)" and "count = stk s (stack_count s - 1)"
  shows "(0 \<le> sint count \<and> sint count < 2 ^ 31 - 1 \<longrightarrow>
           execute_instr i_newarray cls m s =
             Inr (Continue (s\<lparr>operand_stack :=
                                stk_set s (stack_count s - 1)
                                  (snd (heap_add (heap s) (count # replicate (nat (sint count)) 0))),
                              pc := pc s + 2,
                              heap := fst (heap_add (heap s) (count # replicate (nat (sint count)) 0))\<rparr>)))
       \<and> (sint count < 0 \<longrightarrow> execute_instr i_newarray cls m s = Inl AssertionFailed)"
proof (intro conjI impI)
  assume "0 \<le> sint count \<and> sint count < 2 ^ 31 - 1"
  then show "execute_instr i_newarray cls m s =
             Inr (Continue (s\<lparr>operand_stack :=
                                stk_set s (stack_count s - 1)
                                  (snd (heap_add (heap s) (count # replicate (nat (sint count)) 0))),
                              pc := pc s + 2,
                              heap := fst (heap_add (heap s) (count # replicate (nat (sint count)) 0))\<rparr>))"
    using newarray_allocates [OF assms] by simp
next
  assume c: "sint count < 0"
  have "\<not> 0 < sint (count + 1)"
  proof (cases "sint count < 2 ^ 31 - 1")
    case True
    then have "sint (count + 1) = sint count + 1" by (rule sint_succ)
    then show ?thesis using c by simp
  next
    case False
    then show ?thesis using c sint_lt [of count] by simp
  qed
  moreover have "stk s (stack_count s - 1) = count" using assms(2) by simp
  moreover have "sint count \<noteq> 2147483647" using c by simp
  ultimately show "execute_instr i_newarray cls m s = Inl AssertionFailed"
    using assms(1) by (simp add: execute_instr_def newarray_def Let_def)
qed

lemma newarray_in_range_example:
  "in_stack (frame_with [2] [[7]]) 0
   \<and> execute_instr i_newarray empty_class (method_of 1 0 [i_newarray, 10]) (frame_with [2] [[7]]) =
       Inr (Continue \<lparr>pc = 2, operand_stack = [1], stack_count = 1, locals = [],
                       heap = [[7], [2, 0, 0]], stdout = []\<rparr>)
   \<and> execute_instr i_newarray empty_class (method_of 1 0 [i_newarray, 10]) (frame_with [- 1] [[7]]) =
       Inl AssertionFailed"
  using newarray_in_range [of "frame_with [2] [[7]]" 2 empty_class "method_of 1 0 [i_newarray, 10]"]
    newarray_in_range [of "frame_with [- 1] [[7]]" "- 1" empty_class "method_of 1 0 [i_newarray, 10]"]
  by (simp add: frame_with_def in_stack_def stk_def stk_set_def heap_add_def numeral_2_eq_2)

text \<open>
  C5. The claim has \<^verbatim>\<open>newarray\<close> allocate for every count that is not negative. For
  the count \<open>2\<^sup>3\<^sup>1 - 1\<close> the handler forms \<^verbatim>\<open>count + 1\<close>, which is outside of
  \<^verbatim>\<open>int32_t\<close>: no array of \<open>count + 1\<close> slots is made and no reference is put on the
  stack, the run ends in a fault. So it does for a method that loads the constant
  \<open>2\<^sup>3\<^sup>1 - 1\<close> and executes \<^verbatim>\<open>newarray\<close>.
\<close>

theorem newarray_int_max_undefined:
  "0 \<le> sint (0x7fffffff :: i32)
   \<and> execute_instr i_newarray empty_class (method_of 1 0 [i_newarray, 10])
         (frame_with [0x7fffffff] []) = Inl Undefined
   \<and> execute (Suc (Suc 0)) method_int_max_array [0] class_int_max [] [] = Some (Inl Undefined)"
proof -
  have "execute_instr i_newarray empty_class (method_of 1 0 [i_newarray, 10])
         (frame_with [0x7fffffff] []) = Inl Undefined"
    by (simp add: execute_instr_def newarray_def frame_with_def in_stack_def stk_def)
  moreover have "execute (Suc (Suc 0)) method_int_max_array [0] class_int_max [] []
      = Some (Inl Undefined)"
    by code_simp
  ultimately show ?thesis by simp
qed

section \<open>Conditional branches\<close>

text \<open>
  Adding the sign-extended displacement to \<^verbatim>\<open>pc\<close> is an addition of \<^verbatim>\<open>size_t\<close>.
\<close>

lemma uint_add_scast:
  "uint ((p :: size_t) + scast (d :: 16 word)) = (uint p + sint d) mod 2 ^ 64"
proof -
  have "(scast d :: size_t) = word_of_int (sint d)" by (rule scast_eq)
  then have "uint (scast d :: size_t) = sint d mod 2 ^ LENGTH(64)"
    by (simp only: uint_word_of_int)
  then have "uint (scast d :: size_t) = sint d mod 2 ^ 64" by simp
  moreover have "uint (p + scast d) = (uint p + uint (scast d :: size_t)) mod 2 ^ 64"
    by (simp add: uint_word_ariths)
  ultimately show ?thesis by (simp only: mod_add_right_eq)
qed

lemma int16_operand_value:
  "sint (int16_operand m p) =
     (if uint (code_at m (p + 1)) * 256 + uint (code_at m (p + 2)) < 32768
      then uint (code_at m (p + 1)) * 256 + uint (code_at m (p + 2))
      else uint (code_at m (p + 1)) * 256 + uint (code_at m (p + 2)) - 65536)"
  unfolding int16_operand_def sint_16 be16_uint ..

lemma branch_result:
  "in_code m (pc s + 1) \<Longrightarrow> in_code m (pc s + 2) \<Longrightarrow>
   branch c n m s =
     Inr (Continue (s\<lparr>pc := (if c then pc s + scast (int16_operand m (pc s)) else pc s + 3),
                       stack_count := stack_count s - n\<rparr>))"
  by (simp add: branch_def)

text \<open>
  C2. With both displacement bytes inside the code: the displacement \<open>d\<close> of a conditional
  branch is the signed 16-bit value of \<^verbatim>\<open>code[pc + 1]\<close>, \<^verbatim>\<open>code[pc + 2]\<close> read big-endian;
  each of the six unary branches (operand \<open>b\<close> on top of the stack) and of the six
  \<^verbatim>\<open>if_icmp\<close> branches (operands \<open>a\<close> below \<open>b\<close>) sets \<^verbatim>\<open>pc\<close> to the opcode's address plus
  \<open>d\<close> when its condition holds and to the address plus 3 otherwise, and takes one or two
  values off the stack in both cases. The sum is formed in \<^verbatim>\<open>size_t\<close>.
\<close>

theorem conditional_branch_pc:
  assumes "in_code m (pc s + 1)" and "in_code m (pc s + 2)"
    and "d = int16_operand m (pc s)"
    and "b = sint (stk s (stack_count s - 1))" and "a = sint (stk s (stack_count s - 2))"
    and "taken = pc s + scast d"
  shows "sint d =
           (if uint (code_at m (pc s + 1)) * 256 + uint (code_at m (pc s + 2)) < 32768
            then uint (code_at m (pc s + 1)) * 256 + uint (code_at m (pc s + 2))
            else uint (code_at m (pc s + 1)) * 256 + uint (code_at m (pc s + 2)) - 65536)
       \<and> uint taken = (uint (pc s) + sint d) mod 2 ^ 64
       \<and> (in_stack s (stack_count s - 1) \<longrightarrow>
            execute_instr i_ifeq cls m s =
              Inr (Continue (s\<lparr>pc := (if b = 0 then taken else pc s + 3),
                                stack_count := stack_count s - 1\<rparr>))
          \<and> execute_instr i_ifne cls m s =
              Inr (Continue (s\<lparr>pc := (if b \<noteq> 0 then taken else pc s + 3),
                                stack_count := stack_count s - 1\<rparr>))
          \<and> execute_instr i_iflt cls m s =
              Inr (Continue (s\<lparr>pc := (if b < 0 then taken else pc s + 3),
                                stack_count := stack_count s - 1\<rparr>))
          \<and> execute_instr i_ifge cls m s =
              Inr (Continue (s\<lparr>pc := (if b \<ge> 0 then taken else pc s + 3),
                                stack_count := stack_count s - 1\<rparr>))
          \<and> execute_instr i_ifgt cls m s =
              Inr (Continue (s\<lparr>pc := (if b > 0 then taken else pc s + 3),
                                stack_count := stack_count s - 1\<rparr>))
          \<and> execute_instr i_ifle cls m s =
              Inr (Continue (s\<lparr>pc := (if b \<le> 0 then taken else pc s + 3),
                                stack_count := stack_count s - 1\<rparr>)))
       \<and> (in_stack s (stack_count s - 2) \<and> in_stack s (stack_count s - 1) \<longrightarrow>
            execute_instr i_if_icmpeq cls m s =
              Inr (Continue (s\<lparr>pc := (if a = b then taken else pc s + 3),
                                stack_count := stack_count s - 2\<rparr>))
          \<and> execute_instr i_if_icmpne cls m s =
              Inr (Continue (s\<lparr>pc := (if a \<noteq> b then taken else pc s + 3),
                                stack_count := stack_count s - 2\<rparr>))
          \<and> execute_instr i_if_icmplt cls m s =
              Inr (Continue (s\<lparr>pc := (if a < b then taken else pc s + 3),
                                stack_count := stack_count s - 2\<rparr>))
          \<and> execute_instr i_if_icmpge cls m s =
              Inr (Continue (s\<lparr>pc := (if a \<ge> b then taken else pc s + 3),
                                stack_count := stack_count s - 2\<rparr>))
          \<and> execute_instr i_if_icmpgt cls m s =
              Inr (Continue (s\<lparr>pc := (if a > b then taken else pc s + 3),
                                stack_count := stack_count s - 2\<rparr>))
          \<and> execute_instr i_if_icmple cls m s =
              Inr (Continue (s\<lparr>pc := (if a \<le> b then taken else pc s + 3),
                                stack_count := stack_count s - 2\<rparr>)))"
proof -
  note br = branch_result [OF assms(1) assms(2)]
  have d: "sint d = (if uint (code_at m (pc s + 1)) * 256 + uint (code_at m (pc s + 2)) < 32768
            then uint (code_at m (pc s + 1)) * 256 + uint (code_at m (pc s + 2))
            else uint (code_at m (pc s + 1)) * 256 + uint (code_at m (pc s + 2)) - 65536)"
    unfolding assms(3) by (rule int16_operand_value)
  have t: "uint taken = (uint (pc s) + sint d) mod 2 ^ 64"
    unfolding assms(6) by (rule uint_add_scast)
  have u: "in_stack s (stack_count s - 1) \<Longrightarrow>
      if_unary cond m s =
        Inr (Continue (s\<lparr>pc := (if cond b then taken else pc s + 3),
                          stack_count := stack_count s - 1\<rparr>))" for cond
    by (simp add: if_unary_def br assms(3,4,6))
  have i: "in_stack s (stack_count s - 2) \<and> in_stack s (stack_count s - 1) \<Longrightarrow>
      if_icmp cond m s =
        Inr (Continue (s\<lparr>pc := (if cond a b then taken else pc s + 3),
                          stack_count := stack_count s - 2\<rparr>))" for cond
    by (simp add: if_icmp_def br assms(3,4,5,6))
  show ?thesis
    apply (intro conjI impI)
    apply (rule d)
    apply (rule t)
    apply (simp_all add: execute_instr_def u i)
    done
qed


theorem conditional_branch_pc_witness:
  "in_code (method_of 2 0 [i_nop, i_nop, i_nop, i_nop, i_if_icmplt, 0xff, 0xfd]) (4 + 1)
   \<and> in_code (method_of 2 0 [i_nop, i_nop, i_nop, i_nop, i_if_icmplt, 0xff, 0xfd]) (4 + 2)
   \<and> in_stack (frame_at 4 [1, 2] []) 0 \<and> in_stack (frame_at 4 [1, 2] []) 1
   \<and> sint (int16_operand (method_of 2 0 [i_nop, i_nop, i_nop, i_nop, i_if_icmplt, 0xff, 0xfd]) 4) = - 3
   \<and> execute_instr i_if_icmplt empty_class
         (method_of 2 0 [i_nop, i_nop, i_nop, i_nop, i_if_icmplt, 0xff, 0xfd]) (frame_at 4 [1, 2] []) =
       Inr (Continue \<lparr>pc = 1, operand_stack = [1, 2], stack_count = 0, locals = [],
                       heap = [], stdout = []\<rparr>)
   \<and> execute_instr i_if_icmpge empty_class
         (method_of 2 0 [i_nop, i_nop, i_nop, i_nop, i_if_icmplt, 0xff, 0xfd]) (frame_at 4 [1, 2] []) =
       Inr (Continue \<lparr>pc = 7, operand_stack = [1, 2], stack_count = 0, locals = [],
                       heap = [], stdout = []\<rparr>)
   \<and> execute_instr i_ifgt empty_class
         (method_of 2 0 [i_nop, i_nop, i_nop, i_nop, i_if_icmplt, 0xff, 0xfd]) (frame_at 4 [1, 2] []) =
       Inr (Continue \<lparr>pc = 1, operand_stack = [1, 2], stack_count = 1, locals = [],
                       heap = [], stdout = []\<rparr>)"
  using conditional_branch_pc
    [where s = "frame_at 4 [1, 2] []" and cls = empty_class
       and m = "method_of 2 0 [i_nop, i_nop, i_nop, i_nop, i_if_icmplt, 0xff, 0xfd]",
     OF _ _ refl refl refl refl]
  by (simp add: frame_at_def method_of_def in_code_def code_length_def code_at_def in_stack_def
        stk_def int16_operand_def)

section \<open>Opcodes without a case\<close>

lemma unhandled_opcode_no_effect:
  "op \<notin> set handled_opcodes \<Longrightarrow> execute_instr op cls m s = Inr (Continue s)"
  by (simp add: handled_opcodes_def execute_instr_def)

lemma run_same_frame:
  "in_code m (pc s) \<Longrightarrow> execute_instr (code_at m (pc s)) cls m s = Inr (Continue s)
   \<Longrightarrow> run k cls m s = None"
  by (induction k) simp_all

text \<open>
  C8. The claim has an opcode byte that is no \<^verbatim>\<open>case\<close> label treated as a fatal
  condition. The \<^verbatim>\<open>switch\<close> has no \<^verbatim>\<open>default\<close>: at such a byte no statement runs,
  \<^verbatim>\<open>pc\<close> keeps its value and the loop dispatches the same byte again. From a frame whose
  \<^verbatim>\<open>pc\<close> is at such a byte the loop neither returns nor faults, whatever the fuel.
\<close>

theorem unhandled_opcode_never_returns:
  "in_code m (pc s) \<Longrightarrow> code_at m (pc s) \<notin> set handled_opcodes \<Longrightarrow> run k cls m s = None"
  by (simp add: run_same_frame unhandled_opcode_no_effect)

theorem unhandled_opcode_never_returns_witness:
  "in_code (method_of 1 1 [0x01]) (pc (initial_frame (method_of 1 1 [0x01]) [0] [] []))
   \<and> code_at (method_of 1 1 [0x01]) (pc (initial_frame (method_of 1 1 [0x01]) [0] [] []))
        \<notin> set handled_opcodes
   \<and> (\<forall>fuel. execute fuel (method_of 1 1 [0x01]) [0] empty_class [] [] = None)"
proof -
  have c: "in_code (method_of 1 1 [0x01]) (pc (initial_frame (method_of 1 1 [0x01]) [0] [] []))"
    by (simp add: in_code_def code_length_def method_of_def initial_frame_def)
  have u: "code_at (method_of 1 1 [0x01]) (pc (initial_frame (method_of 1 1 [0x01]) [0] [] []))
        \<notin> set handled_opcodes"
    by (simp add: code_at_def method_of_def initial_frame_def handled_opcodes_def)
  show ?thesis
    using c u unhandled_opcode_never_returns [OF c u, of _ empty_class]
    by (simp add: execute_def)
qed

section \<open>Arrays on the heap\<close>

lemma sint_word_of_nat:
  "n < 2 ^ 31 \<Longrightarrow> sint (word_of_nat n :: i32) = int n"
proof -
  assume n: "n < 2 ^ 31"
  have "unat (word_of_nat n :: i32) = n mod 2 ^ LENGTH(32)" by (rule unat_of_nat)
  moreover have "n mod 2 ^ LENGTH(32) = n" using n by simp
  ultimately have "uint (word_of_nat n :: i32) = int n" by (simp only: uint_nat)
  moreover from n have "int n < 2147483648" by simp
  ultimately show ?thesis by (simp only: sint_32 if_True)
qed

lemma in_stack_nat: "in_stack s i \<Longrightarrow> nat i < length (operand_stack s)"
  unfolding in_stack_def by (simp only: nat_less_iff)

lemma in_array_index:
  assumes "0 \<le> sint (i :: i32)" and "sint i < sint (count :: i32)"
    and "length arr = nat (sint count) + 1"
  shows "in_array arr i \<and> nat (sint (i + 1)) = nat (sint i) + 1"
proof -
  have "sint count < 2 ^ 31" using sint_lt [of count] by simp
  with assms(2) have "sint i < 2 ^ 31 - 1" by simp
  then have "sint (i + 1) = sint i + 1" by (rule sint_succ)
  with assms show ?thesis by (simp add: in_array_def nat_add_distrib)
qed

text \<open>
  C6. Let \<open>ref\<close> refer to an array of \<open>count\<close> elements on the heap (a backing array of
  \<open>count + 1\<close> slots, as \<^verbatim>\<open>newarray\<close> makes it), and let \<open>0 \<le> i < count\<close>. Then
  \<^verbatim>\<open>iastore\<close> on \<open>ref\<close>, \<open>i\<close>, \<open>v\<close> writes \<open>v\<close> to slot \<open>i + 1\<close> of that array and takes
  the three values off the stack; and in every frame \<open>t\<close> that has the resulting heap
  and \<open>ref\<close>, \<open>i\<close> on top of its stack, \<^verbatim>\<open>iaload\<close> replaces them by \<open>v\<close>, read from
  slot \<open>i + 1\<close>.
\<close>

theorem iastore_iaload_roundtrip:
  assumes "in_stack s (stack_count s - 1)" and "in_stack s (stack_count s - 2)"
    and "in_stack s (stack_count s - 3)"
    and "ref = stk s (stack_count s - 3)" and "i = stk s (stack_count s - 2)"
    and "v = stk s (stack_count s - 1)"
    and "heap_has (heap s) ref"
    and "length (heap_get (heap s) ref) = nat (sint (count :: i32)) + 1"
    and "0 \<le> sint i" and "sint i < sint count"
    and "in_stack t (stack_count t - 1)" and "in_stack t (stack_count t - 2)"
    and "stk t (stack_count t - 2) = ref" and "stk t (stack_count t - 1) = i"
    and "heap t = (heap s)[nat (sint ref) := (heap_get (heap s) ref)[nat (sint i) + 1 := v]]"
  shows "execute_instr i_iastore cls m s =
           Inr (Continue (s\<lparr>stack_count := stack_count s - 3,
                             pc := pc s + 1,
                             heap := (heap s)[nat (sint ref) :=
                                       (heap_get (heap s) ref)[nat (sint i) + 1 := v]]\<rparr>))
       \<and> execute_instr i_iaload cls m t =
           Inr (Continue (t\<lparr>operand_stack := stk_set t (stack_count t - 2) v,
                             stack_count := stack_count t - 1,
                             pc := pc t + 1\<rparr>))"
proof -
  let ?arr = "heap_get (heap s) ref"
  have ia: "in_array ?arr i" "nat (sint (i + 1)) = nat (sint i) + 1"
    using in_array_index [OF assms(9) assms(10) assms(8)] by simp_all
  have r: "stk s (stack_count s - 3) = ref" "stk s (stack_count s - 2) = i"
      "stk s (stack_count s - 1) = v"
    using assms(4,5,6) by simp_all
  have store: "execute_instr i_iastore cls m s =
           Inr (Continue (s\<lparr>stack_count := stack_count s - 3,
                             pc := pc s + 1,
                             heap := (heap s)[nat (sint ref) := ?arr[nat (sint i) + 1 := v]]\<rparr>))"
    using assms(1,2,3,7) ia by (simp add: execute_instr_def iastore_def Let_def r)
  have h: "heap_has (heap t) ref" using assms(7) by (simp add: assms(15) heap_has_def)
  have g: "heap_get (heap t) ref = ?arr[nat (sint i) + 1 := v]"
    using assms(7) by (simp add: assms(15) heap_get_def heap_has_def)
  have ia': "in_array (?arr[nat (sint i) + 1 := v]) i"
    using ia(1) by (simp add: in_array_def)
  have rd: "(?arr[nat (sint i) + 1 := v]) ! (nat (sint i) + 1) = v"
    using ia by (simp add: in_array_def)
  have load: "execute_instr i_iaload cls m t =
           Inr (Continue (t\<lparr>operand_stack := stk_set t (stack_count t - 2) v,
                             stack_count := stack_count t - 1,
                             pc := pc t + 1\<rparr>))"
    using assms(11,12) h ia' rd
    by (simp add: execute_instr_def iaload_def Let_def assms(13,14) g ia(2))
  from store load show ?thesis ..
qed

text \<open>
  C7. Let \<^verbatim>\<open>newarray\<close> run on a count \<open>0 \<le> count < 2\<^sup>3\<^sup>1 - 1\<close> in a heap of fewer than
  \<open>2\<^sup>3\<^sup>1\<close> arrays, and let \<open>ref\<close> be the reference it leaves on the stack. In every
  frame \<open>t\<close> with \<open>ref\<close> on top of its stack, in whose heap the array under \<open>ref\<close> still
  has the slot 0 that \<^verbatim>\<open>newarray\<close> wrote, \<^verbatim>\<open>arraylength\<close> replaces \<open>ref\<close> by \<open>count\<close>.
\<close>

theorem arraylength_after_newarray:
  assumes "in_stack s (stack_count s - 1)" and "count = stk s (stack_count s - 1)"
    and "0 \<le> sint count" and "sint count < 2 ^ 31 - 1" and "length (heap s) < 2 ^ 31"
    and "execute_instr i_newarray cls m s = Inr (Continue s1)"
    and "ref = stk s1 (stack_count s1 - 1)"
    and "in_stack t (stack_count t - 1)" and "stk t (stack_count t - 1) = ref"
    and "heap_has (heap t) ref"
    and "take 1 (heap_get (heap t) ref) = take 1 (heap_get (heap s1) ref)"
  shows "execute_instr i_arraylength cls m t =
           Inr (Continue (t\<lparr>operand_stack := stk_set t (stack_count t - 1) count,
                             pc := pc t + 1\<rparr>))"
proof -
  let ?arr = "count # replicate (nat (sint count)) 0"
  have "execute_instr i_newarray cls m s =
      Inr (Continue (s\<lparr>operand_stack :=
                         stk_set s (stack_count s - 1) (snd (heap_add (heap s) ?arr)),
                       pc := pc s + 2,
                       heap := fst (heap_add (heap s) ?arr)\<rparr>))"
    using assms(1,2,3,4) by (rule newarray_allocates)
  with assms(6) have s1: "s1 = s\<lparr>operand_stack :=
                         stk_set s (stack_count s - 1) (snd (heap_add (heap s) ?arr)),
                       pc := pc s + 2,
                       heap := fst (heap_add (heap s) ?arr)\<rparr>" by simp
  have "nat (stack_count s - 1) < length (operand_stack s)"
    using assms(1) by (rule in_stack_nat)
  then have ref: "ref = word_of_nat (length (heap s))"
    by (simp add: assms(7) s1 stk_def stk_set_def heap_add_def)
  then have sr: "sint ref = int (length (heap s))"
    using assms(5) by (simp add: sint_word_of_nat)
  have "heap_get (heap s1) ref = ?arr"
    by (simp add: heap_get_def s1 heap_add_def sr)
  with assms(11) have "take 1 (heap_get (heap t) ref) = [count]" by simp
  then have ne: "heap_get (heap t) ref \<noteq> []" and c: "heap_get (heap t) ref ! 0 = count"
    by (cases "heap_get (heap t) ref"; simp)+
  show ?thesis
    using assms(8,10) ne c by (simp add: execute_instr_def arraylength_def Let_def assms(9))
qed


theorem arraylength_after_newarray_witness:
  "in_stack (frame_with [2] [[7]]) 0 \<and> 0 \<le> sint (2 :: i32) \<and> sint (2 :: i32) < 2 ^ 31 - 1
   \<and> execute_instr i_newarray empty_class (method_of 1 0 [i_newarray, 10, i_arraylength])
         (frame_with [2] [[7]]) =
       Inr (Continue \<lparr>pc = 2, operand_stack = [1], stack_count = 1, locals = [],
                       heap = [[7], [2, 0, 0]], stdout = []\<rparr>)
   \<and> heap_has [[7], [2, 5, 6]] 1
   \<and> execute_instr i_arraylength empty_class (method_of 1 0 [i_newarray, 10, i_arraylength])
         (frame_at 2 [1] [[7], [2, 5, 6]]) =
       Inr (Continue \<lparr>pc = 3, operand_stack = [2], stack_count = 1, locals = [],
                       heap = [[7], [2, 5, 6]], stdout = []\<rparr>)"
proof -
  have n: "execute_instr i_newarray empty_class (method_of 1 0 [i_newarray, 10, i_arraylength])
         (frame_with [2] [[7]]) =
       Inr (Continue \<lparr>pc = 2, operand_stack = [1], stack_count = 1, locals = [],
                       heap = [[7], [2, 0, 0]], stdout = []\<rparr>)"
    using newarray_allocates
      [where s = "frame_with [2] [[7]]" and count = 2 and cls = empty_class
         and m = "method_of 1 0 [i_newarray, 10, i_arraylength]"]
    by (simp add: frame_with_def in_stack_def stk_def stk_set_def heap_add_def numeral_2_eq_2)
  show ?thesis
    using n arraylength_after_newarray
      [where s = "frame_with [2] [[7]]" and count = 2 and cls = empty_class
         and m = "method_of 1 0 [i_newarray, 10, i_arraylength]"
         and t = "frame_at 2 [1] [[7], [2, 5, 6]]", OF _ _ _ _ _ n refl]
    by (simp add: frame_with_def frame_at_def in_stack_def stk_def stk_set_def heap_has_def
          heap_get_def)
qed

theorem iastore_iaload_roundtrip_witness:
  "in_stack (frame_with [0, 1, 42] [[3, 0, 0, 0]]) 0
   \<and> in_stack (frame_with [0, 1, 42] [[3, 0, 0, 0]]) 2
   \<and> heap_has [[3, 0, 0, 0]] 0 \<and> 0 \<le> sint (1 :: i32) \<and> sint (1 :: i32) < sint (3 :: i32)
   \<and> execute_instr i_iastore empty_class (method_of 3 0 [i_iastore]) (frame_with [0, 1, 42] [[3, 0, 0, 0]]) =
       Inr (Continue \<lparr>pc = 1, operand_stack = [0, 1, 42], stack_count = 0, locals = [],
                       heap = [[3, 0, 42, 0]], stdout = []\<rparr>)
   \<and> execute_instr i_iaload empty_class (method_of 3 0 [i_iastore]) (frame_with [0, 1] [[3, 0, 42, 0]]) =
       Inr (Continue \<lparr>pc = 1, operand_stack = [42, 1], stack_count = 1, locals = [],
                       heap = [[3, 0, 42, 0]], stdout = []\<rparr>)"
  using iastore_iaload_roundtrip
      [where s = "frame_with [0, 1, 42] [[3, 0, 0, 0]]" and count = 3 and cls = empty_class
         and m = "method_of 3 0 [i_iastore]"
         and t = "frame_with [0, 1] [[3, 0, 42, 0]]", OF _ _ _ refl refl refl]
  by (simp add: frame_with_def in_stack_def stk_def stk_set_def heap_has_def heap_get_def)

section \<open>The operand stack stays within its allocation\<close>

lemma pop_args_count:
  "pop_args n stack sc lq = Inr (lq', sc') \<Longrightarrow> 0 \<le> sc \<Longrightarrow> sc' = sc - int n \<and> 0 \<le> sc'"
proof (induction n arbitrary: sc lq)
  case 0
  then show ?case by simp
next
  case (Suc n)
  from Suc.prems have c: "0 \<le> sc - 1" and
      p: "pop_args n stack (sc - 1) (lq[n := stack ! nat (sc - 1)]) = Inr (lq', sc')"
    by (simp_all split: if_splits)
  from Suc.IH [OF p c] show ?case by simp
qed

lemma execute_instr_stack_ok:
  assumes "execute_instr op cls m s = Inr (Continue s')" and "stack_ok s"
  shows "length (operand_stack s') = length (operand_stack s) \<and> stack_ok s'"
  using assms unfolding execute_instr_def
  by (auto simp: stack_ok_def push_value_def binop_def asserted_binop_def branch_def if_unary_def
        if_icmp_def load_local_def store_local_def newarray_def arraylength_def iaload_def
        iastore_def invokestatic_call_def in_stack_def stk_set_def Let_def
      split: if_splits option.splits sum.splits cp_info.splits prod.splits)

lemma execute_instr_call_stack_ok:
  assumes "execute_instr op cls m s = Inr (Call meth lq s1)" and "stack_ok s"
  shows "operand_stack s1 = operand_stack s \<and> stack_ok s1"
proof -
  from assms(1) have c: "invokestatic_call cls m s = Inr (Call meth lq s1)"
    unfolding execute_instr_def
    by (auto simp: push_value_def binop_def asserted_binop_def branch_def if_unary_def
        if_icmp_def load_local_def store_local_def newarray_def arraylength_def iaload_def
        iastore_def Let_def
      split: if_splits cp_info.splits prod.splits)
  then obtain M sc' where p: "pop_args (unat (get_number_of_parameters M)) (operand_stack s)
        (stack_count s) (replicate (max_locals (code M)) 0) = Inr (lq, sc')"
      and s1: "s1 = s\<lparr>stack_count := sc'\<rparr>"
    by (auto simp: invokestatic_call_def split: if_splits option.splits sum.splits)
  from pop_args_count [OF p] assms(2) have "sc' \<le> stack_count s \<and> 0 \<le> sc'"
    by (simp add: stack_ok_def)
  with assms(2) s1 show ?thesis by (simp add: stack_ok_def)
qed

lemma invokestatic_return_stack_ok:
  assumes "invokestatic_return res callee s1 = Inr s2" and "stack_ok s1"
  shows "length (operand_stack s2) = length (operand_stack s1) \<and> stack_ok s2"
  using assms
  by (auto simp: invokestatic_return_def stack_ok_def in_stack_def stk_set_def split: if_splits)

lemma next_frame_stack_ok:
  assumes "next_frame k cls m s = Some s'" and "stack_ok s"
  shows "length (operand_stack s') = length (operand_stack s) \<and> stack_ok s'"
proof (cases "execute_instr (code_at m (pc s)) cls m s")
  case (Inl f)
  with assms(1) show ?thesis by (simp add: next_frame_def split: if_splits)
next
  case (Inr r)
  show ?thesis
  proof (cases r)
    case (Continue t)
    with Inr assms(1) have "t = s'" by (simp add: next_frame_def split: if_splits)
    with Inr Continue assms(2) show ?thesis by (simp add: execute_instr_stack_ok)
  next
    case (Return v)
    with Inr assms(1) show ?thesis by (simp add: next_frame_def split: if_splits)
  next
    case (Call meth lq s1)
    with Inr have e: "execute_instr (code_at m (pc s)) cls m s = Inr (Call meth lq s1)" by simp
    from execute_instr_call_stack_ok [OF e assms(2)]
    have s1: "operand_stack s1 = operand_stack s" "stack_ok s1" by simp_all
    from assms(1) e obtain res callee where "invokestatic_return res callee s1 = Inr s'"
      by (auto simp: next_frame_def split: if_splits option.splits sum.splits)
    from invokestatic_return_stack_ok [OF this s1(2)] s1(1) show ?thesis by simp
  qed
qed

text \<open>
  \<open>next_frame\<close> is one pass through the loop of \<open>run\<close>.
\<close>

lemma run_next_frame:
  "next_frame k cls m s = Some s' \<Longrightarrow> run (Suc k) cls m s = run k cls m s'"
  by (auto simp: next_frame_def split: if_splits option.splits sum.splits step_result.splits)

text \<open>
  A push onto a full operand stack is a write behind the allocation.
\<close>

lemma push_on_full_stack_undefined:
  "stack_count s = int (length (operand_stack s)) \<Longrightarrow>
   execute_instr i_iconst_0 cls m s = Inl Undefined"
  by (simp add: execute_instr_def push_value_def in_stack_def)

text \<open>
  C4. In every frame that an activation of \<^verbatim>\<open>execute\<close> has at an instruction boundary,
  \<open>0 \<le> stack_count \<le> max_stack\<close>, and the operand stack has the \<open>max_stack\<close> slots it
  was allocated with. The boundaries are those reached by instructions that run to
  their end: an instruction that reads or writes outside the operand stack (a
  \<^verbatim>\<open>max_stack\<close> too small for the code) is a fault and ends the run there.
\<close>

theorem stack_count_within_max_stack:
  assumes "boundary cls m (initial_frame m lcls h out) s"
  shows "0 \<le> stack_count s \<and> stack_count s \<le> int (max_stack (code m))
         \<and> length (operand_stack s) = max_stack (code m)"
proof -
  from assms have "length (operand_stack s) = max_stack (code m) \<and> stack_ok s"
  proof (induction rule: boundary.induct)
    case boundary_start
    show ?case by (simp add: initial_frame_def stack_ok_def)
  next
    case (boundary_next s k s')
    with next_frame_stack_ok [OF boundary_next(2)] show ?case by simp
  qed
  then show ?thesis by (simp add: stack_ok_def)
qed

theorem stack_count_within_max_stack_witness:
  "boundary empty_class (method_of 2 0 [i_iconst_1, i_iconst_2, i_iadd])
     (initial_frame (method_of 2 0 [i_iconst_1, i_iconst_2, i_iadd]) [] [] [])
     \<lparr>pc = 2, operand_stack = [1, 2], stack_count = 2, locals = [], heap = [], stdout = []\<rparr>
   \<and> stack_count \<lparr>pc = 2, operand_stack = [1, 2], stack_count = 2, locals = [], heap = [],
                     stdout = []\<rparr>
       \<le> int (max_stack (code (method_of 2 0 [i_iconst_1, i_iconst_2, i_iadd])))
   \<and> max_stack (code (method_of 2 0 [i_iconst_1, i_iconst_2, i_iadd])) = 2"
proof -
  let ?m = "method_of 2 0 [i_iconst_1, i_iconst_2, i_iadd]"
  let ?s0 = "initial_frame ?m [] [] []"
  let ?s1 = "\<lparr>pc = 1, operand_stack = [1, 0], stack_count = 1, locals = [], heap = [], stdout = []\<rparr>"
  let ?s2 = "\<lparr>pc = 2, operand_stack = [1, 2], stack_count = 2, locals = [], heap = [], stdout = []\<rparr>"
  have r: "replicate 2 (0 :: i32) = [0, 0]" by (simp add: numeral_2_eq_2)
  have n1: "next_frame 0 empty_class ?m ?s0 = Some ?s1"
    by (simp add: next_frame_def initial_frame_def method_of_def in_code_def code_length_def
          code_at_def execute_instr_def push_value_def in_stack_def stk_set_def r)
  have n2: "next_frame 0 empty_class ?m ?s1 = Some ?s2"
    by (simp add: next_frame_def method_of_def in_code_def code_length_def
          code_at_def execute_instr_def push_value_def in_stack_def stk_set_def)
  have b: "boundary empty_class ?m ?s0 ?s2"
    by (rule boundary_next [OF boundary_next [OF boundary_start n1] n2])
  from b stack_count_within_max_stack [OF b] show ?thesis by simp
qed

section \<open>Static calls\<close>

text \<open>
  The loop that pops the arguments: the \<open>n\<close> topmost values of the caller's stack go to
  the first \<open>n\<close> locals of the callee, the deepest of them to index 0.
\<close>

lemma pop_args_spec:
  "n \<le> length lq \<Longrightarrow> int n \<le> sc \<Longrightarrow> sc \<le> int (length stack) \<Longrightarrow>
   pop_args n stack sc lq = Inr (take n (drop (nat (sc - int n)) stack) @ drop n lq, sc - int n)"
proof (induction n arbitrary: sc lq)
  case 0
  then show ?case by simp
next
  case (Suc i)
  let ?k = "nat (sc - int (Suc i))"
  let ?x = "stack ! nat (sc - 1)"
  have k: "nat (sc - 1 - int i) = ?k" by simp
  have ki: "?k + i = nat (sc - 1)" using Suc.prems by simp
  have len: "i < length (drop ?k stack)" using Suc.prems by simp
  have "pop_args (Suc i) stack sc lq = pop_args i stack (sc - 1) (lq[i := ?x])"
    using Suc.prems by simp
  also have "\<dots> = Inr (take i (drop ?k stack) @ drop i (lq[i := ?x]), sc - 1 - int i)"
    using Suc.prems by (subst Suc.IH) (simp_all add: k)
  also have "drop i (lq[i := ?x]) = ?x # drop (Suc i) lq"
    using Suc.prems by (simp add: drop_update_cancel flip: Cons_nth_drop_Suc)
  also have "take i (drop ?k stack) @ ?x # drop (Suc i) lq
      = take (Suc i) (drop ?k stack) @ drop (Suc i) lq"
  proof -
    have "?k \<le> length stack" using Suc.prems by simp
    then have "drop ?k stack ! i = stack ! (?k + i)" by (rule nth_drop)
    then have "drop ?k stack ! i = ?x" by (simp only: ki)
    with len have "take (Suc i) (drop ?k stack) = take i (drop ?k stack) @ [?x]"
      by (simp only: take_Suc_conv_app_nth)
    then show ?thesis by (simp only: append_assoc append_Cons append_Nil)
  qed
  finally show ?case by simp
qed


lemma invokestatic_call_result:
  assumes "in_code m (pc s + 1)" and "in_code m (pc s + 2)"
    and "find_method_from_index
           (invokestatic_index (code_at m (pc s + 1)) (code_at m (pc s + 2))) cls = Some meth"
    and "n = unat (get_number_of_parameters meth)" and "n \<le> max_locals (code meth)"
    and "int n \<le> stack_count s" and "stack_count s \<le> int (length (operand_stack s))"
  shows "invokestatic_call cls m s =
           Inr (Call meth
                  (take n (drop (nat (stack_count s - int n)) (operand_stack s))
                     @ replicate (max_locals (code meth) - n) 0)
                  (s\<lparr>stack_count := stack_count s - int n\<rparr>))"
proof -
  have "pop_args n (operand_stack s) (stack_count s) (replicate (max_locals (code meth)) 0)
      = Inr (take n (drop (nat (stack_count s - int n)) (operand_stack s))
               @ drop n (replicate (max_locals (code meth)) 0), stack_count s - int n)"
    using assms(5,6,7) by (intro pop_args_spec) simp_all
  then show ?thesis
    using assms(1,2,3) by (simp add: invokestatic_call_def assms(4) [symmetric])
qed

text \<open>
  C1. Let \<^verbatim>\<open>invokestatic\<close> at \<^verbatim>\<open>pc\<close> resolve to a method of \<open>n\<close> parameters, with
  \<open>n \<le> max_locals\<close> of that method and at least \<open>n\<close> values on the caller's stack. Then
  the callee runs on fresh locals of \<open>max_locals\<close> slots that hold the \<open>n\<close> topmost values
  of the caller's stack at the indices \<open>0..n-1\<close> in the order they were pushed (the top of
  the stack at index \<open>n - 1\<close>, the value popped last at index 0) and zeros after them.
  When the callee returns, the caller goes on with \<^verbatim>\<open>pc + 3\<close>, with the callee's heap
  and output, and with \<open>n\<close> values fewer on its stack for a void callee, or \<open>n - 1\<close>
  fewer and the returned value on top for a callee that returns a value (given room for
  it on the operand stack).
\<close>

theorem invokestatic_marshalling:
  assumes "in_code m (pc s)" and "code_at m (pc s) = i_invokestatic"
    and "in_code m (pc s + 1)" and "in_code m (pc s + 2)"
    and "find_method_from_index
           (invokestatic_index (code_at m (pc s + 1)) (code_at m (pc s + 2))) cls = Some meth"
    and "n = unat (get_number_of_parameters meth)" and "n \<le> max_locals (code meth)"
    and "int n \<le> stack_count s" and "stack_count s \<le> int (length (operand_stack s))"
    and "args = take n (drop (nat (stack_count s - int n)) (operand_stack s))"
    and "run k cls meth
           (initial_frame meth (args @ replicate (max_locals (code meth) - n) 0) (heap s) (stdout s))
         = Some (Inr (res, callee))"
    and "has_value res \<longrightarrow> stack_count s - int n < int (length (operand_stack s))"
    and "after = (if has_value res
                  then s\<lparr>operand_stack := stk_set s (stack_count s - int n) (ret_value res),
                         stack_count := stack_count s - int n + 1,
                         pc := pc s + 3, heap := heap callee, stdout := stdout callee\<rparr>
                  else s\<lparr>stack_count := stack_count s - int n,
                         pc := pc s + 3, heap := heap callee, stdout := stdout callee\<rparr>)"
  shows "execute_instr i_invokestatic cls m s =
           Inr (Call meth (args @ replicate (max_locals (code meth) - n) 0)
                  (s\<lparr>stack_count := stack_count s - int n\<rparr>))
       \<and> length args = n
       \<and> (\<forall>j<n. args ! j = stk s (stack_count s - int n + int j))
       \<and> next_frame k cls m s = Some after
       \<and> run (Suc k) cls m s = run k cls m after"
proof -
  let ?lq = "args @ replicate (max_locals (code meth) - n) 0"
  let ?s1 = "s\<lparr>stack_count := stack_count s - int n\<rparr>"
  have call: "execute_instr i_invokestatic cls m s = Inr (Call meth ?lq ?s1)"
    unfolding assms(10)
    using invokestatic_call_result [OF assms(3,4,5,6,7,8,9)] by (simp add: execute_instr_def)
  have len: "length args = n" using assms(8,9) by (simp add: assms(10))
  have nth: "args ! j = stk s (stack_count s - int n + int j)" if "j < n" for j
  proof -
    have "nat (stack_count s - int n) \<le> length (operand_stack s)" using assms(8,9) by simp
    moreover have "nat (stack_count s - int n) + j = nat (stack_count s - int n + int j)"
      using assms(8) by simp
    ultimately show ?thesis using that by (simp add: assms(10) stk_def)
  qed
  have ret: "invokestatic_return res callee ?s1 = Inr after"
    using assms(8,12) by (simp add: invokestatic_return_def assms(13) in_stack_def stk_set_def)
  have nf: "next_frame k cls m s = Some after"
    using assms(1) call ret by (simp add: next_frame_def assms(2) assms(11))
  have rn: "run (Suc k) cls m s = run k cls m after"
    using assms(1) call ret by (simp add: assms(2) assms(11))
  from call len nth nf rn show ?thesis by simp
qed


theorem invokestatic_marshalling_witness:
  "find_method_from_index (invokestatic_index 0 2) (class_with 2 callee_sub) = Some callee_sub
   \<and> unat (get_number_of_parameters callee_sub) = 2
   \<and> run (Suc (Suc (Suc (Suc 0)))) (class_with 2 callee_sub) callee_sub
         (initial_frame callee_sub [7, 5, 0] [] []) =
       Some (Inr (\<lparr>has_value = True, ret_value = 2\<rparr>,
                  \<lparr>pc = 3, operand_stack = [2, 5], stack_count = 1, locals = [7, 5, 0],
                     heap = [], stdout = []\<rparr>))
   \<and> execute_instr i_invokestatic (class_with 2 callee_sub)
         (method_of 2 0 [i_invokestatic, 0, 2]) (frame_with [7, 5] []) =
       Inr (Call callee_sub [7, 5, 0]
              \<lparr>pc = 0, operand_stack = [7, 5], stack_count = 0, locals = [],
                 heap = [], stdout = []\<rparr>)
   \<and> next_frame (Suc (Suc (Suc (Suc 0)))) (class_with 2 callee_sub)
         (method_of 2 0 [i_invokestatic, 0, 2]) (frame_with [7, 5] []) =
       Some \<lparr>pc = 3, operand_stack = [2, 5], stack_count = 1, locals = [],
              heap = [], stdout = []\<rparr>"
proof -
  have r: "run (Suc (Suc (Suc (Suc 0)))) (class_with 2 callee_sub) callee_sub
         (initial_frame callee_sub [7, 5, 0] [] []) =
       Some (Inr (\<lparr>has_value = True, ret_value = 2\<rparr>,
                  \<lparr>pc = 3, operand_stack = [2, 5], stack_count = 1, locals = [7, 5, 0],
                     heap = [], stdout = []\<rparr>))"
    by code_simp
  have f: "find_method_from_index (invokestatic_index 0 2) (class_with 2 callee_sub)
             = Some callee_sub"
    by (simp add: find_method_from_index_def invokestatic_index_def class_with_def
          as_parameter_def)
  have n: "unat (get_number_of_parameters callee_sub) = 2"
    by (simp add: get_number_of_parameters_def callee_sub_def)
  have a: "take 2 (drop (nat (stack_count (frame_with [7, 5] []) - int 2))
                     (operand_stack (frame_with [7, 5] [])))
             @ replicate (max_locals (code callee_sub) - 2) 0 = [7, 5, 0]"
    by (simp add: frame_with_def callee_sub_def)
  have hs: "heap (frame_with [7, 5] []) = []" "stdout (frame_with [7, 5] []) = []"
    by (simp_all add: frame_with_def)
  have r': "run (Suc (Suc (Suc (Suc 0)))) (class_with 2 callee_sub) callee_sub
         (initial_frame callee_sub
            (take 2 (drop (nat (stack_count (frame_with [7, 5] []) - int 2))
                       (operand_stack (frame_with [7, 5] [])))
               @ replicate (max_locals (code callee_sub) - 2) 0)
            (heap (frame_with [7, 5] [])) (stdout (frame_with [7, 5] []))) =
       Some (Inr (\<lparr>has_value = True, ret_value = 2\<rparr>,
                  \<lparr>pc = 3, operand_stack = [2, 5], stack_count = 1, locals = [7, 5, 0],
                     heap = [], stdout = []\<rparr>))"
    by (simp only: a hs r)
  have c: "in_code (method_of 2 0 [i_invokestatic, 0, 2]) (pc (frame_with [7, 5] []))"
      "code_at (method_of 2 0 [i_invokestatic, 0, 2]) (pc (frame_with [7, 5] [])) = i_invokestatic"
      "in_code (method_of 2 0 [i_invokestatic, 0, 2]) (pc (frame_with [7, 5] []) + 1)"
      "in_code (method_of 2 0 [i_invokestatic, 0, 2]) (pc (frame_with [7, 5] []) + 2)"
    by (simp_all add: frame_with_def method_of_def in_code_def code_length_def code_at_def)
  have f': "find_method_from_index
        (invokestatic_index
           (code_at (method_of 2 0 [i_invokestatic, 0, 2]) (pc (frame_with [7, 5] []) + 1))
           (code_at (method_of 2 0 [i_invokestatic, 0, 2]) (pc (frame_with [7, 5] []) + 2)))
        (class_with 2 callee_sub) = Some callee_sub"
    using f by (simp add: frame_with_def method_of_def code_at_def)
  have b: "2 \<le> max_locals (code callee_sub)" "int 2 \<le> stack_count (frame_with [7, 5] [])"
      "stack_count (frame_with [7, 5] []) \<le> int (length (operand_stack (frame_with [7, 5] [])))"
      "has_value \<lparr>has_value = True, ret_value = 2\<rparr> \<longrightarrow>
         stack_count (frame_with [7, 5] []) - int 2
           < int (length (operand_stack (frame_with [7, 5] [])))"
    by (simp_all add: frame_with_def callee_sub_def)
  note th = invokestatic_marshalling
      [where s = "frame_with [7, 5] []" and cls = "class_with 2 callee_sub"
         and m = "method_of 2 0 [i_invokestatic, 0, 2]" and meth = callee_sub and n = 2,
       OF c(1) c(2) c(3) c(4) f' n [symmetric] b(1) b(2) b(3) refl r' b(4) refl]
  have e: "execute_instr i_invokestatic (class_with 2 callee_sub)
         (method_of 2 0 [i_invokestatic, 0, 2]) (frame_with [7, 5] []) =
       Inr (Call callee_sub [7, 5, 0]
              \<lparr>pc = 0, operand_stack = [7, 5], stack_count = 0, locals = [],
                 heap = [], stdout = []\<rparr>)"
    using th [THEN conjunct1] unfolding a by (simp add: frame_with_def)
  have nf: "next_frame (Suc (Suc (Suc (Suc 0)))) (class_with 2 callee_sub)
         (method_of 2 0 [i_invokestatic, 0, 2]) (frame_with [7, 5] []) =
       Some \<lparr>pc = 3, operand_stack = [2, 5], stack_count = 1, locals = [],
              heap = [], stdout = []\<rparr>"
    using th [THEN conjunct2, THEN conjunct2, THEN conjunct2, THEN conjunct1]
    by (simp add: frame_with_def stk_set_def)
  show ?thesis
    by (intro conjI) (rule f, rule n, rule r, rule e, rule nf)
qed

end
